theory Spec2Isabelle
  imports Complex_Main "HOL-Library.AList"
begin

unbundle bit_operations_syntax

section \<open>Python values\<close>

text \<open>
  The program is a single Python module, \<^verbatim>\<open>src/main.py\<close>.  Its values are modelled as
  follows.
  \<^item> Python \<^verbatim>\<open>int\<close> is \<^typ>\<open>int\<close>.
  \<^item> Python \<^verbatim>\<open>float\<close> is \<^typ>\<open>real\<close>: rates, intensities and clock readings are exact
    reals, so rounding, infinities and NaN of IEEE doubles are outside the model.
  \<^item> Text read from the counter source and the text built from it (interface ids, names,
    messages) is \<^typ>\<open>string\<close>.
  \<^item> Text that is displayed or persisted may hold symbols beyond ASCII; it is a list of
    Unicode code points, so that \<^const>\<open>length\<close> counts what Python's \<^verbatim>\<open>len\<close> counts.
\<close>

type_synonym ustring = "nat list"

definition ustr :: "string \<Rightarrow> ustring" where
  "ustr s = map of_char s"

text \<open>Exceptions that the modelled code can raise, each with the text of \<^verbatim>\<open>str(e)\<close>.\<close>

datatype exc =
    OSError string
  | ValueError string
  | KeyError string
  | CursesError string

fun exc_str :: "exc \<Rightarrow> string" where
  "exc_str (OSError m) = m"
| "exc_str (ValueError m) = m"
| "exc_str (KeyError m) = m"
| "exc_str (CursesError m) = m"

subsection \<open>The random source\<close>

text \<open>
  The module \<^verbatim>\<open>random\<close> is a hidden global generator.  Here it is an explicit infinite
  tape of uniform draws: every call of \<^verbatim>\<open>random.random\<close>, \<^verbatim>\<open>random.uniform\<close>,
  \<^verbatim>\<open>random.choice\<close> or \<^verbatim>\<open>random.randint\<close> reads the head of the tape and moves on by one.
  A draw of the real generator lies in \<open>[0, 1)\<close>.
\<close>

type_synonym rng = "nat \<Rightarrow> real"

definition rng_next :: "rng \<Rightarrow> rng" where
  "rng_next g = (\<lambda>n. g (Suc n))"

definition random_random :: "rng \<Rightarrow> real \<times> rng" where
  "random_random g = (g 0, rng_next g)"

definition random_uniform :: "real \<Rightarrow> real \<Rightarrow> rng \<Rightarrow> real \<times> rng" where
  "random_uniform a b g = (a + (b - a) * g 0, rng_next g)"

definition randbelow :: "nat \<Rightarrow> rng \<Rightarrow> nat \<times> rng" where
  "randbelow n g = (nat \<lfloor>g 0 * real n\<rfloor> mod n, rng_next g)"

definition random_choice :: "'a list \<Rightarrow> rng \<Rightarrow> 'a \<times> rng" where
  "random_choice xs g = (case randbelow (length xs) g of (i, g') \<Rightarrow> (xs ! i, g'))"

definition random_randint :: "int \<Rightarrow> int \<Rightarrow> rng \<Rightarrow> int \<times> rng" where
  "random_randint a b g =
     (case randbelow (nat (b - a + 1)) g of (i, g') \<Rightarrow> (a + int i, g'))"

definition uniform_tape :: "rng \<Rightarrow> bool" where
  "uniform_tape g = (\<forall>n. 0 \<le> g n \<and> g n < 1)"

section \<open>Glyphs\<close>

datatype GlyphType = FLOW | PULSE | WHISPER | SHADOW | ECHO

record Glyph =
  type :: GlyphType
  intensity :: real
  position :: "int \<times> int"
  age :: int
  char :: ustring
  color_pair :: int

text \<open>The alphabets of \<^verbatim>\<open>update_glyphs\<close>, one per kind, as code points.\<close>

fun glyph_chars :: "GlyphType \<Rightarrow> ustring list" where
  "glyph_chars FLOW = [[0x2197], [0x2198], [0x2196], [0x2199], [0x2195], [0x2194]]"
| "glyph_chars PULSE = [[0x25CF], [0x25CB], [0x25CE], [0x25C9], [0x2299]]"
| "glyph_chars WHISPER = [[0x2026], [0x7E], [0x22EE], [0x22EF]]"
| "glyph_chars SHADOW = [[0x2591], [0x2592], [0x2593], [0x259A], [0x259E]]"
| "glyph_chars ECHO = [[0x29BF], [0x27F3], [0x27F2], [0x21BB], [0x21BA]]"

text \<open>
  The \<^verbatim>\<open>for glyph in self.glyphs\<close> loop of \<^verbatim>\<open>update_glyphs\<close>.  The glyph object is
  appended to \<^verbatim>\<open>active_glyphs\<close> before its character is chosen again, but the list holds
  the object itself, so the kept glyph shows the new character.  The result is
  \<^verbatim>\<open>active_glyphs\<close>.
\<close>

fun decay_glyphs :: "Glyph list \<Rightarrow> rng \<Rightarrow> Glyph list \<times> rng" where
  "decay_glyphs [] g = ([], g)"
| "decay_glyphs (gl # gls) g =
     (let gl1 = gl\<lparr>age := age gl + 1, intensity := intensity gl * (95 / 100)\<rparr>;
          (c, g1) = random_choice (glyph_chars (type gl1)) g;
          gl2 = gl1\<lparr>char := c\<rparr>;
          (active, g2) = decay_glyphs gls g1
      in (if intensity gl1 > 1 / 10 then gl2 # active else active, g2))"

text \<open>
  \<^verbatim>\<open>NetworkEntity.update_glyphs\<close> works on the entity's glyphs, its rates and its essence.
  The three steps are the decay loop, the flow spawn and the whisper spawn; each is a
  function of its own here, composed in \<open>update_glyphs\<close> below in the order of the source.
\<close>

definition flow_intensity :: "real \<Rightarrow> real \<Rightarrow> real" where
  "flow_intensity rx tx = min (rx + tx) 1000 / 1000"

definition spawn_glyph :: "GlyphType \<Rightarrow> real \<Rightarrow> rng \<Rightarrow> Glyph \<times> rng" where
  "spawn_glyph k i g =
     (case random_randint 0 20 g of (x, g1) \<Rightarrow>
      case random_randint 0 5 g1 of (y, g2) \<Rightarrow>
      case random_randint 1 6 g2 of (c, g3) \<Rightarrow>
        (\<lparr>type = k, intensity = i, position = (x, y), age = 0, char = [0x20],
          color_pair = c\<rparr>, g3))"

definition spawn_flow :: "real \<Rightarrow> rng \<Rightarrow> Glyph list \<times> rng" where
  "spawn_flow fi g =
     (case random_random g of (u, g1) \<Rightarrow>
        if u < fi * (3 / 10)
        then (case spawn_glyph FLOW fi g1 of (gl, g2) \<Rightarrow> ([gl], g2))
        else ([], g1))"

definition spawn_whisper :: "real \<Rightarrow> rng \<Rightarrow> Glyph list \<times> rng" where
  "spawn_whisper ess g =
     (case random_random g of (u, g1) \<Rightarrow>
        if u < ess * (2 / 10)
        then (case spawn_glyph WHISPER ess g1 of (gl, g2) \<Rightarrow> ([gl], g2))
        else ([], g1))"

section \<open>Clock readings\<close>

text \<open>
  \<^verbatim>\<open>time.time()\<close> is a real number passed to the operation that reads it.
  \<^verbatim>\<open>datetime.now()\<close> is a record of the calendar fields; an operation that stamps several
  messages takes one reading for all of them.
\<close>

record datetime =
  year :: nat
  month :: nat
  day :: nat
  hour :: nat
  minute :: nat
  second :: nat
  microsecond :: nat

definition digit_char :: "nat \<Rightarrow> char" where
  "digit_char d = char_of (48 + d mod 10)"

fun zero_pad :: "nat \<Rightarrow> nat \<Rightarrow> string" where
  "zero_pad 0 n = []"
| "zero_pad (Suc w) n = zero_pad w (n div 10) @ [digit_char n]"

definition strftime_HMS :: "datetime \<Rightarrow> string" where
  "strftime_HMS d = zero_pad 2 (hour d) @ '':'' @ zero_pad 2 (minute d) @ '':''
     @ zero_pad 2 (second d)"

definition strftime_Ymd_HMS :: "datetime \<Rightarrow> string" where
  "strftime_Ymd_HMS d = zero_pad 4 (year d) @ ''-'' @ zero_pad 2 (month d) @ ''-''
     @ zero_pad 2 (day d) @ '' '' @ strftime_HMS d"

definition isoformat :: "datetime \<Rightarrow> string" where
  "isoformat d = zero_pad 4 (year d) @ ''-'' @ zero_pad 2 (month d) @ ''-''
     @ zero_pad 2 (day d) @ ''T'' @ strftime_HMS d
     @ (if microsecond d = 0 then [] else ''.'' @ zero_pad 6 (microsecond d))"

section \<open>Entities\<close>

record NetworkEntity =
  name :: string
  interface :: string
  rx_bytes :: int
  tx_bytes :: int
  rx_rate :: real
  tx_rate :: real
  essence :: real
  aura :: string
  glyphs :: "Glyph list"
  last_seen :: real
  whispers :: "string list"

definition spirit_names :: "(string \<times> string list) list" where
  "spirit_names =
     [(''eth'', [''Silent River'', ''Whispering Wind'', ''Ethereal Flow'']),
      (''wlan'', [''Air Spirit'', ''Cloud Dancer'', ''Sky Whisper'']),
      (''lo'', [''Inner Echo'', ''Soul Mirror'', ''Self Reflection'']),
      (''veth'', [''Bridge Guardian'', ''Gatekeeper'', ''Threshold Walker'']),
      (''docker'', [''Container Spirit'', ''Boxed Essence'', ''Isolated Soul'']),
      (''tun'', [''Tunnel Dreamer'', ''Veil Piercer'', ''Hidden Path'']),
      (''tap'', [''Mirror Pool'', ''Reflection Well'', ''Surface Tension''])]"

definition mystic_suffixes :: "string list" where
  "mystic_suffixes = ['' the Observer'', '' the Watcher'', '' the Listener'',
     '' the Silent'', '' the Flowing'', '' the Hidden'']"

definition mystic_prefixes :: "string list" where
  "mystic_prefixes = [''Whispering '', ''Echoing '', ''Veiled '', ''Ancient '',
     ''Forgotten '', ''Secret '']"

definition startswith :: "string \<Rightarrow> string \<Rightarrow> bool" where
  "startswith s p = (take (length p) s = p)"

definition generate_spirit_name :: "string \<Rightarrow> rng \<Rightarrow> string \<times> rng" where
  "generate_spirit_name iface g =
     (case find (\<lambda>(p, ns). startswith iface p) spirit_names of
        Some (p, ns) \<Rightarrow>
          (case random_choice ns g of (n, g1) \<Rightarrow> (n @ '' ('' @ iface @ '')'', g1))
      | None \<Rightarrow>
          (case random_random g of (u, g1) \<Rightarrow>
             if u > 1 / 2
             then (case random_choice mystic_prefixes g1 of (p, g2) \<Rightarrow> (p @ iface, g2))
             else (case random_choice mystic_suffixes g1 of (s, g2) \<Rightarrow> (iface @ s, g2))))"

definition auras :: "string list" where
  "auras = [''Pale Blue Mist'', ''Flickering Shadow'', ''Soft Golden Glow'',
     ''Deep Ocean Haze'', ''Forest Whisper Green'', ''Twilight Purple'',
     ''Dawn Orange'', ''Dusk Red'', ''Moon Silver'', ''Sun Gold'']"

definition generate_aura :: "rng \<Rightarrow> string \<times> rng" where
  "generate_aura g = random_choice auras g"

text \<open>
  \<^verbatim>\<open>NetworkEntity.__init__(name, interface)\<close>.  The argument \<open>t\<close> is the reading of
  \<^verbatim>\<open>time.time()\<close> that the constructor stores in \<^verbatim>\<open>last_seen\<close>.
\<close>

definition new_entity :: "string \<Rightarrow> string \<Rightarrow> real \<Rightarrow> rng \<Rightarrow> NetworkEntity \<times> rng" where
  "new_entity nm iface t g =
     (case generate_spirit_name nm g of (n, g1) \<Rightarrow>
      case random_uniform (1 / 10) 1 g1 of (e, g2) \<Rightarrow>
      case generate_aura g2 of (a, g3) \<Rightarrow>
        (\<lparr>name = n, interface = iface, rx_bytes = 0, tx_bytes = 0, rx_rate = 0,
          tx_rate = 0, essence = e, aura = a, glyphs = [], last_seen = t,
          whispers = []\<rparr>, g3))"

definition add_whisper :: "datetime \<Rightarrow> string \<Rightarrow> NetworkEntity \<Rightarrow> NetworkEntity" where
  "add_whisper d message e =
     (let ws = whispers e @ [''['' @ strftime_HMS d @ ''] '' @ message]
      in e\<lparr>whispers := (if length ws > 5 then tl ws else ws)\<rparr>)"

definition update_glyphs :: "NetworkEntity \<Rightarrow> rng \<Rightarrow> NetworkEntity \<times> rng" where
  "update_glyphs e g =
     (case decay_glyphs (glyphs e) g of (active, g1) \<Rightarrow>
      case spawn_flow (flow_intensity (rx_rate e) (tx_rate e)) g1 of (fl, g2) \<Rightarrow>
      case spawn_whisper (essence e) g2 of (wh, g3) \<Rightarrow>
        (e\<lparr>glyphs := active @ fl @ wh\<rparr>, g3))"

section \<open>The message collector\<close>

text \<open>
  \<^verbatim>\<open>WhisperCollector\<close> holds a \<^verbatim>\<open>deque(maxlen=100)\<close>, here the list of its items, oldest
  first.  Appending to a full deque discards from the left.
\<close>

definition collector_add_whisper ::
  "datetime \<Rightarrow> string \<Rightarrow> string \<Rightarrow> string \<Rightarrow> string list \<Rightarrow> string list" where
  "collector_add_whisper d source message level ws =
     (let whisper = ''['' @ strftime_Ymd_HMS d @ ''] ['' @ level @ ''] '' @ source @ '': ''
            @ message
      in drop (length ws + 1 - 100) (ws @ [whisper]))"

definition get_recent_whispers :: "nat \<Rightarrow> string list \<Rightarrow> string list" where
  "get_recent_whispers count ws = (if count = 0 then ws else drop (length ws - count) ws)"

section \<open>The monitor state\<close>

text \<open>
  \<^verbatim>\<open>MysticConfig\<close>, the fields that the modelled code reads, each with the type of its
  default value; \<^verbatim>\<open>log_file\<close> may also be \<^verbatim>\<open>None\<close>.  (\<^verbatim>\<open>load_from_file\<close>, which can store
  any JSON value in a field, is not modelled: a configuration is an argument of
  \<open>new_mystic\<close>.)
\<close>

record MysticConfig =
  update_interval :: real
  show_whispers :: bool
  ancient_script :: bool
  log_file :: "string option"
  max_spirits :: int
  show_loopback :: bool

text \<open>
  \<^verbatim>\<open>NetworkMystic\<close>.  The dictionary \<^verbatim>\<open>entities\<close> keeps insertion order, which the renderer's
  stable sort and the persisted snapshot depend on, so it is an association list with one
  pair per key.  The field \<open>collector\<close> is the attribute \<^verbatim>\<open>self.whispers\<close> (the name
  \<open>whispers\<close> is the entity's list).  The dictionary \<^verbatim>\<open>colors\<close> maps a pair id to its
  attribute.
\<close>

record NetworkMystic =
  config :: MysticConfig
  entities :: "(string \<times> NetworkEntity) list"
  collector :: "string list"
  last_update :: real
  running :: bool
  colors :: "(int \<times> int) list"

definition default_config :: MysticConfig where
  "default_config = \<lparr>update_interval = 1, show_whispers = True, ancient_script = True,
     log_file = Some ''network_mysteries.log'', max_spirits = 20, show_loopback = False\<rparr>"

text \<open>\<^verbatim>\<open>NetworkMystic.__init__\<close>, at clock reading \<open>t\<close>.\<close>

definition new_mystic :: "MysticConfig \<Rightarrow> real \<Rightarrow> NetworkMystic" where
  "new_mystic c t = \<lparr>config = c, entities = [], collector = [], last_update = t,
     running = False, colors = []\<rparr>"

section \<open>Reading the counter source\<close>

text \<open>
  \<^verbatim>\<open>str.isspace\<close> on the code points below 256, which is what \<^verbatim>\<open>strip()\<close> and \<^verbatim>\<open>split()\<close>
  without arguments remove.
\<close>

definition is_space :: "char \<Rightarrow> bool" where
  "is_space c = ((of_char c :: nat) \<in> {9, 10, 11, 12, 13, 28, 29, 30, 31, 32, 133, 160})"

definition strip :: "string \<Rightarrow> string" where
  "strip s = rev (dropWhile is_space (rev (dropWhile is_space s)))"

text \<open>\<^verbatim>\<open>s.split(sep)\<close> for a separator of one character: never an empty list.\<close>

fun split_on :: "char \<Rightarrow> string \<Rightarrow> string list" where
  "split_on sep [] = [[]]"
| "split_on sep (c # cs) =
     (if c = sep then [] # split_on sep cs
      else (case split_on sep cs of
              [] \<Rightarrow> [[c]]
            | w # ws \<Rightarrow> (c # w) # ws))"

text \<open>\<^verbatim>\<open>s.split()\<close>: the maximal runs of characters that are not white space.\<close>

fun split_ws_acc :: "string \<Rightarrow> string \<Rightarrow> string list" where
  "split_ws_acc w [] = (if w = [] then [] else [rev w])"
| "split_ws_acc w (c # cs) =
     (if is_space c then (if w = [] then split_ws_acc [] cs else rev w # split_ws_acc [] cs)
      else split_ws_acc (c # w) cs)"

definition split_ws :: "string \<Rightarrow> string list" where
  "split_ws s = split_ws_acc [] s"

text \<open>
  \<^verbatim>\<open>repr(s)\<close> of a string of code points below 256: the quote is the double one when the
  string holds a single quote and no double one; the quote and the backslash are escaped,
  tab, line feed and carriage return have their letters, every other code point that
  \<^verbatim>\<open>str.isprintable\<close> refuses is written as a backslash, \<^verbatim>\<open>x\<close> and two hexadecimal digits.
\<close>

definition hex_char :: "nat \<Rightarrow> char" where
  "hex_char n = ''0123456789abcdef'' ! (n mod 16)"

definition is_printable :: "char \<Rightarrow> bool" where
  "is_printable c =
     (let n = (of_char c :: nat)
      in 32 \<le> n \<and> n \<noteq> 127 \<and> \<not> (128 \<le> n \<and> n \<le> 160) \<and> n \<noteq> 173)"

definition repr_char :: "char \<Rightarrow> char \<Rightarrow> string" where
  "repr_char q c =
     (if c = q \<or> c = CHR 0x5C then [CHR 0x5C, c]
      else if c = CHR 0x09 then [CHR 0x5C, CHR ''t'']
      else if c = CHR 0x0A then [CHR 0x5C, CHR ''n'']
      else if c = CHR 0x0D then [CHR 0x5C, CHR ''r'']
      else if is_printable c then [c]
      else [CHR 0x5C, CHR ''x'', hex_char ((of_char c :: nat) div 16),
            hex_char (of_char c :: nat)])"

definition repr_str :: "string \<Rightarrow> string" where
  "repr_str s =
     (let q = (if CHR 0x27 \<in> set s \<and> CHR 0x22 \<notin> set s then CHR 0x22 else CHR 0x27)
      in [q] @ concat (map (repr_char q) s) @ [q])"

text \<open>
  \<^verbatim>\<open>int(s)\<close> on a string: white space around, an optional sign, then decimal digits with
  single underscores allowed between digits.  Anything else raises \<^verbatim>\<open>ValueError\<close>, whose
  text ends with the first 200 characters of \<^verbatim>\<open>repr(s)\<close>.  (Digits beyond ASCII and the
  length limit of recent interpreters are not modelled.)
\<close>

definition is_digit :: "char \<Rightarrow> bool" where
  "is_digit c = (48 \<le> (of_char c :: nat) \<and> (of_char c :: nat) \<le> 57)"

definition digit_val :: "char \<Rightarrow> nat" where
  "digit_val c = of_char c - 48"

fun int_digits :: "nat \<Rightarrow> string \<Rightarrow> nat option" where
  "int_digits acc [] = Some acc"
| "int_digits acc [c] = (if is_digit c then Some (10 * acc + digit_val c) else None)"
| "int_digits acc (c # d # cs) =
     (if is_digit c then int_digits (10 * acc + digit_val c) (d # cs)
      else if c = CHR ''_'' \<and> is_digit d then int_digits (10 * acc + digit_val d) cs
      else None)"

definition int_unsigned :: "string \<Rightarrow> nat option" where
  "int_unsigned s =
     (case s of
        [] \<Rightarrow> None
      | c # cs \<Rightarrow> if is_digit c then int_digits (digit_val c) cs else None)"

definition py_int :: "string \<Rightarrow> exc + int" where
  "py_int s =
     (let t = strip s;
          r = (case t of
                 [] \<Rightarrow> None
               | c # cs \<Rightarrow>
                   if c = CHR ''-'' then map_option (\<lambda>n. - int n) (int_unsigned cs)
                   else if c = CHR ''+'' then map_option int (int_unsigned cs)
                   else map_option int (int_unsigned t))
      in case r of
           None \<Rightarrow> Inl (ValueError (''invalid literal for int() with base 10: ''
                      @ take 200 (repr_str s)))
         | Some n \<Rightarrow> Inr n)"

section \<open>The scan\<close>

text \<open>
  Lines 330 to 356 of \<^verbatim>\<open>scan_spirits\<close>: what the loop does with a row once its two
  counters are parsed.  An id that is not tracked gets a new entity, appended to the
  dictionary, and a creation message.  Then, for the new entity as for an old one, the
  time stamp, the rates, the raw counters, the status message and the glyphs are updated.
  The elapsed time is measured from \<^verbatim>\<open>self.last_update\<close>, the attribute of the monitor.
\<close>

text \<open>The text \<^verbatim>\<open>f"Spirit '{spirit.name}' has appeared"\<close>, and the same with \<^verbatim>\<open>faded\<close>.\<close>

definition spirit_message :: "string \<Rightarrow> string \<Rightarrow> string" where
  "spirit_message nm what = ''Spirit '' @ [CHR 0x27] @ nm @ [CHR 0x27] @ '' has '' @ what"

definition status_whisper :: "datetime \<Rightarrow> NetworkEntity \<Rightarrow> NetworkEntity" where
  "status_whisper d e =
     (if rx_rate e > 1000000 then add_whisper d ''Great flow from beyond'' e
      else if rx_rate e < 1000 \<and> tx_rate e < 1000 then add_whisper d ''Resting in silence'' e
      else if rx_rate e > tx_rate e * 2 then add_whisper d ''Listening more than speaking'' e
      else if tx_rate e > rx_rate e * 2 then add_whisper d ''Whispering to the void'' e
      else e)"

definition sample_entity ::
  "real \<Rightarrow> real \<Rightarrow> datetime \<Rightarrow> int \<Rightarrow> int \<Rightarrow> NetworkEntity \<Rightarrow> NetworkEntity" where
  "sample_entity current_time last_upd d rx tx entity =
     (let e1 = entity\<lparr>last_seen := current_time\<rparr>;
          time_diff = current_time - last_upd;
          e2 = (if time_diff > 0
                then e1\<lparr>rx_rate := real_of_int (rx - rx_bytes e1) / time_diff,
                        tx_rate := real_of_int (tx - tx_bytes e1) / time_diff\<rparr>
                else e1);
          e3 = e2\<lparr>rx_bytes := rx, tx_bytes := tx\<rparr>
      in status_whisper d e3)"

definition observe ::
  "real \<Rightarrow> datetime \<Rightarrow> string \<Rightarrow> int \<Rightarrow> int \<Rightarrow> NetworkMystic \<Rightarrow> rng \<Rightarrow> NetworkMystic \<times> rng" where
  "observe current_time d iface rx tx m g =
     (case (case map_of (entities m) iface of
              Some e \<Rightarrow> (e, m, g)
            | None \<Rightarrow>
                (case new_entity iface iface current_time g of (spirit, g1) \<Rightarrow>
                   (spirit,
                    m\<lparr>entities := entities m @ [(iface, spirit)],
                      collector := collector_add_whisper d ''Veil''
                        (spirit_message (name spirit) ''appeared'') ''SPIRIT'' (collector m)\<rparr>,
                    g1)))
      of (entity, m1, g1) \<Rightarrow>
        (case update_glyphs (sample_entity current_time (last_update m1) d rx tx entity) g1
         of (e', g2) \<Rightarrow> (m1\<lparr>entities := AList.update iface e' (entities m1)\<rparr>, g2)))"

text \<open>
  The body of \<^verbatim>\<open>for line in lines\<close>.  The loop state is the monitor, the local set
  \<^verbatim>\<open>found_interfaces\<close> and the random source; the last component is the exception that
  leaves the loop, if any.  The id is added to \<^verbatim>\<open>found_interfaces\<close> before the fields are
  counted.
\<close>

type_synonym scan_state = "NetworkMystic \<times> string set \<times> rng"

definition scan_row ::
  "real \<Rightarrow> datetime \<Rightarrow> string \<Rightarrow> scan_state \<Rightarrow> scan_state \<times> exc option" where
  "scan_row current_time d line st =
     (case st of (m, found, g) \<Rightarrow>
        if strip line = [] then (st, None)
        else let parts = split_on CHR '':'' line in
          if length parts < 2 then (st, None)
          else let iface = strip (parts ! 0) in
            if iface = [] \<or> (iface = ''lo'' \<and> \<not> show_loopback (config m)) then (st, None)
            else let found1 = insert iface found; data = split_ws (parts ! 1) in
              if length data < 16 then ((m, found1, g), None)
              else (case py_int (data ! 0) of
                      Inl e \<Rightarrow> ((m, found1, g), Some e)
                    | Inr rx \<Rightarrow>
                        (case py_int (data ! 8) of
                           Inl e \<Rightarrow> ((m, found1, g), Some e)
                         | Inr tx \<Rightarrow>
                             (case observe current_time d iface rx tx m g of
                                (m', g') \<Rightarrow> ((m', found1, g'), None)))))"

fun scan_rows ::
  "real \<Rightarrow> datetime \<Rightarrow> string list \<Rightarrow> scan_state \<Rightarrow> scan_state \<times> exc option" where
  "scan_rows current_time d [] st = (st, None)"
| "scan_rows current_time d (line # lines) st =
     (case scan_row current_time d line st of
        (st', Some e) \<Rightarrow> (st', Some e)
      | (st', None) \<Rightarrow> scan_rows current_time d lines st')"

text \<open>
  The two loops after the rows: collect the expired ids, then pop and report each.  The
  ids come from the dictionary's own keys, so \<^verbatim>\<open>pop\<close> finds each of them.
\<close>

definition expired_ids :: "string set \<Rightarrow> NetworkMystic \<Rightarrow> string list" where
  "expired_ids found m = filter (\<lambda>iface. iface \<notin> found) (map fst (entities m))"

fun fade :: "datetime \<Rightarrow> string list \<Rightarrow> NetworkMystic \<Rightarrow> NetworkMystic" where
  "fade d [] m = m"
| "fade d (iface # rest) m =
     (case map_of (entities m) iface of
        None \<Rightarrow> fade d rest m
      | Some spirit \<Rightarrow>
          fade d rest
            (m\<lparr>entities := AList.delete iface (entities m),
               collector := collector_add_whisper d ''Veil''
                 (spirit_message (name spirit) ''faded'') ''SPIRIT'' (collector m)\<rparr>))"

text \<open>
  \<^verbatim>\<open>scan_spirits\<close>.  The argument \<open>src\<close> is what \<^verbatim>\<open>open\<close> and \<^verbatim>\<open>readlines\<close> give: the lines
  of the counter source, or the exception they raise.  \<open>current_time\<close> is the reading of
  \<^verbatim>\<open>time.time()\<close> after the read.  Every exception is caught and reported to the
  collector; what the loop had changed before it stays changed.
\<close>

definition scan_failed :: "datetime \<Rightarrow> exc \<Rightarrow> NetworkMystic \<Rightarrow> NetworkMystic" where
  "scan_failed d e m =
     m\<lparr>collector := collector_add_whisper d ''Scanner'' (''Failed to scan: '' @ exc_str e)
         ''ERROR'' (collector m)\<rparr>"

definition scan_spirits ::
  "exc + string list \<Rightarrow> real \<Rightarrow> datetime \<Rightarrow> NetworkMystic \<Rightarrow> rng \<Rightarrow> NetworkMystic \<times> rng" where
  "scan_spirits src current_time d m g =
     (case src of
        Inl e \<Rightarrow> (scan_failed d e m, g)
      | Inr all_lines \<Rightarrow>
          (case scan_rows current_time d (drop 2 all_lines) (m, {}, g) of
             ((m1, found, g1), Some e) \<Rightarrow> (scan_failed d e m1, g1)
           | ((m1, found, g1), None) \<Rightarrow> (fade d (expired_ids found m1) m1, g1)))"

section \<open>Decorative numerals and the clock glyphs\<close>

definition ancient_symbols :: "nat list" where
  "ancient_symbols = [0x2160, 0x2161, 0x2162, 0x2163, 0x2164, 0x2165, 0x2166, 0x2167,
     0x2168, 0x2169, 0x216A, 0x216B, 0x2180, 0x2181, 0x2182, 0x2183, 0x2185, 0x2186,
     0x2187, 0x2188]"

text \<open>The \<^verbatim>\<open>while int_part > 0\<close> loop of \<^verbatim>\<open>encode_number\<close>, with the final reversal.\<close>

fun encode_digits :: "nat \<Rightarrow> ustring" where
  "encode_digits n =
     (if n = 0 then []
      else encode_digits (n div 20) @ [ancient_symbols ! ((n - 1) mod 20)])"

declare encode_digits.simps [simp del]

definition encode_number :: "real \<Rightarrow> ustring" where
  "encode_number num = (if num < 1 then [0x218A] else encode_digits (nat \<lfloor>num\<rfloor>))"

definition rate_units :: "(ustring \<times> real) list" where
  "rate_units = [([0x24B7, 0x2F, 0x24E2], 1), ([0x24C0, 0x24B7, 0x2F, 0x24E2], 1024),
     ([0x24C2, 0x24B7, 0x2F, 0x24E2], 1024 ^ 2), ([0x24BC, 0x24B7, 0x2F, 0x24E2], 1024 ^ 3),
     ([0x24C9, 0x24B7, 0x2F, 0x24E2], 1024 ^ 4)]"

text \<open>\<^verbatim>\<open>encode_rate\<close>: the units are tried from the largest down.\<close>

fun encode_rate_from :: "(ustring \<times> real) list \<Rightarrow> real \<Rightarrow> ustring" where
  "encode_rate_from [] rate = [0x218A, 0x20] @ fst (rate_units ! 0)"
| "encode_rate_from ((unit, divisor) # rest) rate =
     (if rate \<ge> divisor then encode_number (rate / divisor) @ [0x20] @ unit
      else encode_rate_from rest rate)"

definition encode_rate :: "real \<Rightarrow> ustring" where
  "encode_rate rate = encode_rate_from (rev rate_units) rate"

definition hour_symbols :: "nat list" where
  "hour_symbols = [0x5B50, 0x4E11, 0x5BC5, 0x536F, 0x8FB0, 0x5DF3, 0x5348, 0x672A, 0x7533,
     0x9149, 0x620C, 0x4EA5]"

definition minute_symbols :: "nat list" where
  "minute_symbols = [0x521D, 0x58F9, 0x8D30, 0x53C1, 0x8086, 0x4F0D, 0x9646, 0x67D2, 0x634C,
     0x7396, 0x62FE]"

text \<open>\<^verbatim>\<open>get_mystic_time\<close>, for a reading of \<^verbatim>\<open>datetime.now()\<close> (minute below 60).\<close>

definition get_mystic_time :: "datetime \<Rightarrow> ustring" where
  "get_mystic_time d =
     [hour_symbols ! (hour d mod 12), minute_symbols ! (minute d div 6), 0x523B]"

section \<open>The character grid\<close>

text \<open>
  The curses window is outside the program.  Its model keeps what the renderer reads and
  writes: the size that \<^verbatim>\<open>getmaxyx\<close> returns, the module attributes \<^verbatim>\<open>curses.LINES\<close> and
  \<^verbatim>\<open>curses.COLS\<close>, and the list of the writes that succeeded, oldest first, each with its
  row, column, text and attribute.  A write raises \<^verbatim>\<open>curses.error\<close> when its target
  lies outside the grid; \<open>accepts\<close> stands for every other reason the library may have to
  refuse a write (a text that runs past the last cell, for one).
\<close>

record screen =
  height :: int
  width :: int
  LINES :: int
  COLS :: int
  accepts :: "int \<Rightarrow> int \<Rightarrow> ustring \<Rightarrow> bool"
  cells :: "(int \<times> int \<times> ustring \<times> int) list"

definition A_NORMAL :: int where "A_NORMAL = 0"
definition A_DIM :: int where "A_DIM = 2 ^ 20"
definition A_BOLD :: int where "A_BOLD = 2 ^ 21"

definition color_pair_attr :: "int \<Rightarrow> int" where
  "color_pair_attr n = n * 2 ^ 8"

text \<open>
  A drawing step changes the screen and may leave with an exception; what it wrote
  before stays written.
\<close>

type_synonym draw = "screen \<Rightarrow> screen \<times> exc option"

definition in_grid :: "screen \<Rightarrow> int \<Rightarrow> int \<Rightarrow> bool" where
  "in_grid scr y x = (0 \<le> y \<and> y < height scr \<and> 0 \<le> x \<and> x < width scr)"

definition addstr :: "int \<Rightarrow> int \<Rightarrow> ustring \<Rightarrow> int \<Rightarrow> draw" where
  "addstr y x s attr scr =
     (if in_grid scr y x \<and> accepts scr y x s
      then (scr\<lparr>cells := cells scr @ [(y, x, s, attr)]\<rparr>, None)
      else (scr, Some (CursesError ''addwstr() returned ERR'')))"

definition skip :: draw where
  "skip scr = (scr, None)"

definition raise :: "exc \<Rightarrow> draw" where
  "raise e scr = (scr, Some e)"

definition then_draw :: "draw \<Rightarrow> draw \<Rightarrow> draw" where
  "then_draw f h scr =
     (case f scr of
        (scr1, None) \<Rightarrow> h scr1
      | (scr1, Some e) \<Rightarrow> (scr1, Some e))"

text \<open>\<^verbatim>\<open>try: ... except: pass\<close> and \<^verbatim>\<open>try: ... except curses.error: pass\<close>.\<close>

definition try_pass :: "draw \<Rightarrow> draw" where
  "try_pass f scr = (fst (f scr), None)"

definition try_curses :: "draw \<Rightarrow> draw" where
  "try_curses f scr =
     (case f scr of
        (scr1, Some (CursesError msg)) \<Rightarrow> (scr1, None)
      | r \<Rightarrow> r)"

text \<open>A \<^verbatim>\<open>for\<close> loop whose body is a drawing step.\<close>

fun draw_each :: "('a \<Rightarrow> draw) \<Rightarrow> 'a list \<Rightarrow> draw" where
  "draw_each f [] = skip"
| "draw_each f (x # xs) = then_draw (f x) (draw_each f xs)"

subsection \<open>Small string functions\<close>

fun str_nat :: "nat \<Rightarrow> string" where
  "str_nat n = (if n < 10 then [digit_char n] else str_nat (n div 10) @ [digit_char n])"

declare str_nat.simps [simp del]

definition str_int :: "int \<Rightarrow> string" where
  "str_int i = (if i < 0 then ''-'' @ str_nat (nat (- i)) else str_nat (nat i))"

fun join_str :: "'a list \<Rightarrow> 'a list list \<Rightarrow> 'a list" where
  "join_str sep [] = []"
| "join_str sep [x] = x"
| "join_str sep (x # y # ys) = x @ sep @ join_str sep (y # ys)"

text \<open>
  The slices \<^verbatim>\<open>xs[:k]\<close> and \<^verbatim>\<open>xs[-k:]\<close> of Python; \<^verbatim>\<open>xs[-0:]\<close> is the whole list.
\<close>

definition slice_to :: "int \<Rightarrow> 'a list \<Rightarrow> 'a list" where
  "slice_to k xs = (if k \<ge> 0 then take (nat k) xs else take (nat (int (length xs) + k)) xs)"

definition last_n :: "nat \<Rightarrow> 'a list \<Rightarrow> 'a list" where
  "last_n k xs = (if k = 0 then xs else drop (length xs - k) xs)"

text \<open>\<^verbatim>\<open>self.colors[k]\<close> raises \<^verbatim>\<open>KeyError\<close> for a missing key.\<close>

definition color_of :: "NetworkMystic \<Rightarrow> int \<Rightarrow> exc + int" where
  "color_of m k =
     (case map_of (colors m) k of
        None \<Rightarrow> Inl (KeyError (str_int k))
      | Some a \<Rightarrow> Inr a)"

definition with_attr :: "exc + int \<Rightarrow> (int \<Rightarrow> draw) \<Rightarrow> draw" where
  "with_attr r f = (case r of Inl e \<Rightarrow> raise e | Inr a \<Rightarrow> f a)"

definition init_colors :: "NetworkMystic \<Rightarrow> NetworkMystic" where
  "init_colors m = m\<lparr>colors := map (\<lambda>k. (k, color_pair_attr k)) [1, 2, 3, 4, 5, 6, 7]\<rparr>"

section \<open>The host\<close>

text \<open>
  What the renderer and the persistence step ask of their surroundings: the output lines
  of the command \<^verbatim>\<open>ip -o -4 addr show <interface>\<close> (or the exception of running it), the
  fixed-point formatting \<^verbatim>\<open>format(x, ".Nf")\<close> of a float, \<^verbatim>\<open>repr\<close> of a float, and
  \<^verbatim>\<open>math.sin\<close>.
\<close>

record host =
  ip_addr_show :: "string \<Rightarrow> exc + string list"
  format_fixed :: "nat \<Rightarrow> real \<Rightarrow> string"
  float_repr :: "real \<Rightarrow> string"
  math_sin :: "real \<Rightarrow> real"

definition ip_of_line :: "string \<Rightarrow> string list" where
  "ip_of_line line =
     (let parts = split_ws line in
      if length parts \<ge> 4
      then (let ip = hd (split_on CHR ''/'' (parts ! 3)) in
            if ip \<noteq> [] \<and> ip \<noteq> ''127.0.0.1'' then [ip] else [])
      else [])"

definition get_interface_ips :: "host \<Rightarrow> string \<Rightarrow> string list" where
  "get_interface_ips h iface =
     (case ip_addr_show h iface of
        Inl e \<Rightarrow> []
      | Inr stdout_lines \<Rightarrow> concat (map ip_of_line stdout_lines))"

section \<open>The renderer\<close>

definition border_row :: "int \<Rightarrow> int \<Rightarrow> int \<Rightarrow> draw" where
  "border_row h w y =
     (if y = 0
      then try_pass (addstr y 0 ([0x2554] @ replicate (nat (w - 2)) 0x2550 @ [0x2557]) A_NORMAL)
      else if y = h - 1
      then try_pass (addstr y 0 ([0x255A] @ replicate (nat (w - 2)) 0x2550 @ [0x255D]) A_NORMAL)
      else try_pass (then_draw (addstr y 0 [0x2551] A_NORMAL)
                               (addstr y (w - 1) [0x2551] A_NORMAL)))"

definition draw_veil_border :: "int \<Rightarrow> int \<Rightarrow> draw" where
  "draw_veil_border h w = draw_each (border_row h w) [0..h - 1]"

definition glyph_attr :: "NetworkMystic \<Rightarrow> Glyph \<Rightarrow> int" where
  "glyph_attr m glyph =
     (let a0 = (case map_of (colors m) (color_pair glyph) of None \<Rightarrow> A_NORMAL | Some a \<Rightarrow> a);
          a1 = (if intensity glyph > 3 / 10 then a0 OR A_BOLD else a0)
      in if intensity glyph < 6 / 10 then a1 OR A_DIM else a1)"

definition render_glyph :: "NetworkMystic \<Rightarrow> Glyph \<Rightarrow> int \<Rightarrow> int \<Rightarrow> draw" where
  "render_glyph m glyph offset_x offset_y scr =
     (case position glyph of (x, y) \<Rightarrow>
        let screen_x = offset_x + x; screen_y = offset_y + y in
        if 0 \<le> screen_x \<and> screen_x < COLS scr \<and> 0 \<le> screen_y \<and> screen_y < LINES scr
        then try_pass (addstr screen_y screen_x (char glyph) (glyph_attr m glyph)) scr
        else skip scr)"

text \<open>\<^verbatim>\<open>int(x)\<close> of a float truncates towards zero.\<close>

definition py_trunc :: "real \<Rightarrow> int" where
  "py_trunc r = (if r \<ge> 0 then \<lfloor>r\<rfloor> else \<lceil>r\<rceil>)"

definition flow_bar :: "nat list" where
  "flow_bar = [0x2581, 0x2582, 0x2583, 0x2584, 0x2585, 0x2586, 0x2587, 0x2588]"

definition flow_cell :: "NetworkMystic \<Rightarrow> int \<Rightarrow> int \<Rightarrow> int \<Rightarrow> int \<Rightarrow> draw" where
  "flow_cell m pair x y i =
     try_pass (with_attr (color_of m pair)
       (addstr (y + 4 - i) x [flow_bar ! nat (min (i * 8 div 5) 7)]))"

definition render_flow_visualization ::
  "NetworkMystic \<Rightarrow> real \<Rightarrow> real \<Rightarrow> int \<Rightarrow> int \<Rightarrow> draw" where
  "render_flow_visualization m rx tx x y =
     (let rx_height = min (py_trunc (rx / 1000 * 5)) 5;
          tx_height = min (py_trunc (tx / 1000 * 5)) 5
      in then_draw (draw_each (flow_cell m 2 x y) [0..rx_height - 1])
                   (draw_each (flow_cell m 3 (x + 2) y) [0..tx_height - 1]))"

fun format_rate_from :: "host \<Rightarrow> string list \<Rightarrow> real \<Rightarrow> string" where
  "format_rate_from h [] rate = ''0 B/s''"
| "format_rate_from h (unit # rest) rate =
     (if rate < 1024 \<or> unit = ''TB/s'' then format_fixed h 1 rate @ '' '' @ unit
      else format_rate_from h rest (rate / 1024))"

definition format_rate :: "host \<Rightarrow> real \<Rightarrow> string" where
  "format_rate h rate = format_rate_from h [''B/s'', ''KB/s'', ''MB/s'', ''GB/s'', ''TB/s''] rate"

definition rate_display :: "host \<Rightarrow> NetworkMystic \<Rightarrow> real \<Rightarrow> ustring" where
  "rate_display h m rate =
     (if ancient_script (config m) then encode_rate rate else ustr (format_rate h rate))"

text \<open>
  The loop over \<^verbatim>\<open>entity.whispers[-2:]\<close> in \<^verbatim>\<open>draw_spirit_info\<close>; \<^verbatim>\<open>whisper_y\<close> moves on
  only after a write that succeeded.
\<close>

fun draw_entity_whispers :: "string list \<Rightarrow> int \<Rightarrow> screen \<Rightarrow> screen \<times> int" where
  "draw_entity_whispers [] whisper_y scr = (scr, whisper_y)"
| "draw_entity_whispers (w # ws) whisper_y scr =
     (if whisper_y < LINES scr - 2
      then (case addstr whisper_y 2 ([0x2502, 0x20, 0x20] @ ustr w) A_DIM scr of
              (scr1, None) \<Rightarrow> draw_entity_whispers ws (whisper_y + 1) scr1
            | (scr1, Some e) \<Rightarrow> draw_entity_whispers ws whisper_y scr1)
      else draw_entity_whispers ws whisper_y scr)"

text \<open>
  \<^verbatim>\<open>draw_spirit_info\<close>.  The six lines of the block's head stand in one \<^verbatim>\<open>try\<close> whose
  handler is \<^verbatim>\<open>except curses.error\<close> at the end of the function; the later writes each
  have a handler of their own.
\<close>

definition block_tail :: "NetworkMystic \<Rightarrow> NetworkEntity \<Rightarrow> int \<Rightarrow> draw" where
  "block_tail m entity y_start scr =
     (case draw_entity_whispers (last_n 2 (whispers entity)) (y_start + 6) scr of
        (scr1, whisper_y) \<Rightarrow>
          then_draw
            (try_pass (addstr whisper_y 2 ([0x2570] @ replicate (nat (COLS scr1 - 4)) 0x2500)
               A_NORMAL))
            (draw_each (\<lambda>glyph. render_glyph m glyph 25 (y_start - 4)) (glyphs entity))
            scr1)"

definition draw_spirit_info :: "host \<Rightarrow> NetworkMystic \<Rightarrow> NetworkEntity \<Rightarrow> int \<Rightarrow> draw" where
  "draw_spirit_info h m entity y_start =
     try_curses
       (let ips = get_interface_ips h (interface entity);
            ip_display = (if ips \<noteq> [] then join_str '', '' ips else ''[No physical form]'');
            rx_display = rate_display h m (rx_rate entity);
            tx_display = rate_display h m (tx_rate entity)
        in then_draw (addstr y_start 2 ([0x256D, 0x2500, 0x20] @ ustr (name entity)) A_BOLD)
          (then_draw (with_attr (color_of m 4)
             (addstr (y_start + 1) 2 ([0x2502, 0x20, 0x20] @ ustr (''Aura: '' @ aura entity))))
          (then_draw (with_attr (color_of m 2)
             (addstr (y_start + 2) 2 ([0x2502, 0x20, 0x20] @ ustr ''From Beyond: '' @ rx_display)))
          (then_draw (with_attr (color_of m 3)
             (addstr (y_start + 3) 2 ([0x2502, 0x20, 0x20] @ ustr ''To Void:     '' @ tx_display)))
          (then_draw (addstr (y_start + 4) 2
             ([0x2502, 0x20, 0x20] @ ustr (''Essence: '' @ format_fixed h 2 (essence entity))) A_DIM)
          (then_draw (addstr (y_start + 5) 2
             ([0x2502, 0x20, 0x20] @ ustr (''Form: '' @ ip_display)) A_DIM)
          (then_draw (render_flow_visualization m (rx_rate entity) (tx_rate entity) 40
             (y_start + 1))
             (block_tail m entity y_start))))))))"

definition draw_status_bar :: "host \<Rightarrow> NetworkMystic \<Rightarrow> datetime \<Rightarrow> int \<Rightarrow> int \<Rightarrow> draw" where
  "draw_status_bar h m d hgt wid =
     try_curses
       (let status_y = hgt - 3;
            total_rx = sum_list (map (\<lambda>(k, e). rx_rate e) (entities m));
            total_tx = sum_list (map (\<lambda>(k, e). tx_rate e) (entities m));
            status = ustr ''Total Flow: '' @ rate_display h m total_rx @ [0x20, 0x256B, 0x20]
              @ rate_display h m total_tx
              @ [0x20, 0x2502, 0x20] @ ustr (''Spirits: '' @ str_nat (length (entities m)))
              @ [0x20, 0x2502, 0x20] @ get_mystic_time d;
            status1 = (if int (length status) > wid - 4 then slice_to (wid - 4) status
                       else status);
            status_x = max 0 ((wid - int (length status1)) div 2)
        in try_pass (addstr status_y status_x status1 A_DIM))"

definition panel_line :: "int \<Rightarrow> int \<Rightarrow> int \<Rightarrow> int \<times> string \<Rightarrow> draw" where
  "panel_line hgt panel_x panel_width iw =
     (case iw of (i, whisper) \<Rightarrow>
        if i < hgt - 4
        then try_pass (addstr (2 + i) panel_x
               ([0x2502] @ ustr (slice_to (panel_width - 2) whisper)) A_DIM)
        else skip)"

definition draw_whispers_panel :: "NetworkMystic \<Rightarrow> int \<Rightarrow> int \<Rightarrow> draw" where
  "draw_whispers_panel m hgt wid =
     (if \<not> show_whispers (config m) then skip
      else try_curses
        (let panel_width = min 50 (wid - 2);
             panel_x = wid - panel_width - 1;
             ws = get_recent_whispers 8 (collector m);
             end_y = min (int (length ws) + 2) (hgt - 2)
         in then_draw
              (try_pass (addstr 1 panel_x
                 ([0x256D, 0x2500] @ ustr ''[Whispers]'' @ [0x2500]) A_DIM))
           (then_draw
              (draw_each (panel_line hgt panel_x panel_width)
                 (zip (map int [0..<length ws]) ws))
           (then_draw
              (draw_each (\<lambda>y. try_pass (addstr y (panel_x + panel_width) [0x2502] A_DIM))
                 [1..end_y - 1])
              (try_pass (addstr end_y panel_x
                 ([0x2570] @ replicate (nat panel_width) 0x2500) A_DIM))))))"

text \<open>
  \<^verbatim>\<open>sorted(self.entities.values(), key=..., reverse=True)\<close> is stable and keeps the first of
  two equal keys first, as a stable ascending sort by the negated key does.
\<close>

definition sorted_spirits :: "NetworkMystic \<Rightarrow> NetworkEntity list" where
  "sorted_spirits m = sort_key (\<lambda>e. - (rx_rate e + tx_rate e)) (map snd (entities m))"

text \<open>The loop \<^verbatim>\<open>for spirit in spirits[:self.config.max_spirits]\<close> of \<^verbatim>\<open>draw_veil\<close>.\<close>

fun draw_spirits :: "host \<Rightarrow> NetworkMystic \<Rightarrow> int \<Rightarrow> int \<Rightarrow> NetworkEntity list \<Rightarrow> draw" where
  "draw_spirits h m hgt y [] = skip"
| "draw_spirits h m hgt y (spirit # rest) =
     (if y < hgt - 10
      then then_draw (draw_spirit_info h m spirit y) (draw_spirits h m hgt (y + 9) rest)
      else draw_spirits h m hgt y rest)"

definition veil_title :: ustring where
  "veil_title = [0x2561] @ ustr '' Network Mystic '' @ [0x255E]"

definition draw_title :: "NetworkMystic \<Rightarrow> int \<Rightarrow> draw" where
  "draw_title m wid =
     (let title_x = max 0 ((wid - int (length veil_title)) div 2)
      in try_pass (with_attr (color_of m 1) (\<lambda>c. addstr 0 title_x veil_title (A_BOLD OR c))))"

definition draw_time :: "datetime \<Rightarrow> int \<Rightarrow> draw" where
  "draw_time d wid =
     (let mystic_time = get_mystic_time d;
          time_x = wid - int (length mystic_time) - 2
      in if time_x > 0 then try_pass (addstr 0 time_x mystic_time A_DIM) else skip)"

text \<open>
  \<^verbatim>\<open>draw_veil\<close>: \<^verbatim>\<open>screen.clear()\<close> empties the grid, \<^verbatim>\<open>screen.refresh()\<close> leaves the model
  as it is.
\<close>

definition draw_veil :: "host \<Rightarrow> NetworkMystic \<Rightarrow> datetime \<Rightarrow> draw" where
  "draw_veil h m d scr =
     try_curses
       (then_draw (draw_veil_border (height scr) (width scr))
       (then_draw (draw_title m (width scr))
       (then_draw (draw_time d (width scr))
       (then_draw (draw_spirits h m (height scr) 2
                     (slice_to (max_spirits (config m)) (sorted_spirits m)))
       (then_draw (draw_status_bar h m d (height scr) (width scr))
                  (draw_whispers_panel m (height scr) (width scr)))))))
       (scr\<lparr>cells := []\<rparr>)"

subsection \<open>The frame with every write guarded on its own\<close>

text \<open>
  The specification asks that every write that does not fit is dropped by itself.  The
  three definitions below are the renderer written to those words: they differ from the
  source's in that each of the six head lines of an entity block, and each of the two
  side marks of a border row, has a handler of its own.  They are what the source's
  renderer is compared with.
\<close>

definition border_row_guarded :: "int \<Rightarrow> int \<Rightarrow> int \<Rightarrow> draw" where
  "border_row_guarded h w y =
     (if y = 0
      then try_pass (addstr y 0 ([0x2554] @ replicate (nat (w - 2)) 0x2550 @ [0x2557]) A_NORMAL)
      else if y = h - 1
      then try_pass (addstr y 0 ([0x255A] @ replicate (nat (w - 2)) 0x2550 @ [0x255D]) A_NORMAL)
      else then_draw (try_pass (addstr y 0 [0x2551] A_NORMAL))
                     (try_pass (addstr y (w - 1) [0x2551] A_NORMAL)))"

definition draw_spirit_info_guarded ::
  "host \<Rightarrow> NetworkMystic \<Rightarrow> NetworkEntity \<Rightarrow> int \<Rightarrow> draw" where
  "draw_spirit_info_guarded h m entity y_start =
     (let ips = get_interface_ips h (interface entity);
          ip_display = (if ips \<noteq> [] then join_str '', '' ips else ''[No physical form]'');
          rx_display = rate_display h m (rx_rate entity);
          tx_display = rate_display h m (tx_rate entity)
      in then_draw
           (try_pass (addstr y_start 2 ([0x256D, 0x2500, 0x20] @ ustr (name entity)) A_BOLD))
        (then_draw (try_pass (with_attr (color_of m 4)
           (addstr (y_start + 1) 2 ([0x2502, 0x20, 0x20] @ ustr (''Aura: '' @ aura entity)))))
        (then_draw (try_pass (with_attr (color_of m 2)
           (addstr (y_start + 2) 2 ([0x2502, 0x20, 0x20] @ ustr ''From Beyond: '' @ rx_display))))
        (then_draw (try_pass (with_attr (color_of m 3)
           (addstr (y_start + 3) 2 ([0x2502, 0x20, 0x20] @ ustr ''To Void:     '' @ tx_display))))
        (then_draw (try_pass (addstr (y_start + 4) 2
           ([0x2502, 0x20, 0x20] @ ustr (''Essence: '' @ format_fixed h 2 (essence entity))) A_DIM))
        (then_draw (try_pass (addstr (y_start + 5) 2
           ([0x2502, 0x20, 0x20] @ ustr (''Form: '' @ ip_display)) A_DIM))
        (then_draw (render_flow_visualization m (rx_rate entity) (tx_rate entity) 40
           (y_start + 1))
           (block_tail m entity y_start))))))))"



section \<open>Persistence\<close>

text \<open>
  The values that \<^verbatim>\<open>save_mysteries\<close> hands to \<^verbatim>\<open>json.dump\<close>, and \<^verbatim>\<open>json.dump\<close> itself for
  the arguments of the call, \<^verbatim>\<open>indent=2\<close> and \<^verbatim>\<open>ensure_ascii=False\<close>: members and items
  each on a line of their own, indented by two spaces per level, separated by a comma;
  an empty list or dictionary on one line.
\<close>

datatype json =
    JString ustring
  | JInt int
  | JFloat real
  | JArray "json list"
  | JObject "(string \<times> json) list"

definition hex_digit :: "nat \<Rightarrow> nat" where
  "hex_digit n = of_char (''0123456789abcdef'' ! (n mod 16))"

definition json_escape :: "nat \<Rightarrow> ustring" where
  "json_escape c =
     (if c = 0x22 then [0x5C, 0x22]
      else if c = 0x5C then [0x5C, 0x5C]
      else if c = 0x0A then [0x5C, 0x6E]
      else if c = 0x0D then [0x5C, 0x72]
      else if c = 0x09 then [0x5C, 0x74]
      else if c = 0x08 then [0x5C, 0x62]
      else if c = 0x0C then [0x5C, 0x66]
      else if c < 0x20 then [0x5C, 0x75, 0x30, 0x30, hex_digit (c div 16), hex_digit c]
      else [c])"

definition json_string :: "ustring \<Rightarrow> ustring" where
  "json_string s = [0x22] @ concat (map json_escape s) @ [0x22]"

definition newline_indent :: "nat \<Rightarrow> ustring" where
  "newline_indent level = [0x0A] @ replicate (2 * level) 0x20"

fun json_dump :: "host \<Rightarrow> nat \<Rightarrow> json \<Rightarrow> ustring" where
  "json_dump h level (JString s) = json_string s"
| "json_dump h level (JInt i) = ustr (str_int i)"
| "json_dump h level (JFloat r) = ustr (float_repr h r)"
| "json_dump h level (JArray xs) =
     (if xs = [] then ustr ''[]''
      else [0x5B] @ newline_indent (level + 1)
        @ join_str ([0x2C] @ newline_indent (level + 1)) (map (json_dump h (level + 1)) xs)
        @ newline_indent level @ [0x5D])"
| "json_dump h level (JObject kvs) =
     (if kvs = [] then ustr ''{}''
      else [0x7B] @ newline_indent (level + 1)
        @ join_str ([0x2C] @ newline_indent (level + 1))
            (map (\<lambda>kv. json_string (ustr (fst kv)) @ ustr '': ''
                     @ json_dump h (level + 1) (snd kv)) kvs)
        @ newline_indent level @ [0x7D])"

declare json_dump.simps [simp del]

definition mystery :: "datetime \<Rightarrow> NetworkEntity \<Rightarrow> json" where
  "mystery d entity = JObject
     [(''spirit'', JString (ustr (name entity))),
      (''interface'', JString (ustr (interface entity))),
      (''essence'', JFloat (essence entity)),
      (''aura'', JString (ustr (aura entity))),
      (''total_rx'', JInt (rx_bytes entity)),
      (''total_tx'', JInt (tx_bytes entity)),
      (''whispers'', JArray (map (\<lambda>w. JString (ustr w)) (last_n 5 (whispers entity)))),
      (''timestamp'', JString (ustr (isoformat d)))]"

definition log_entry :: "datetime \<Rightarrow> NetworkMystic \<Rightarrow> json" where
  "log_entry d m = JObject
     [(''timestamp'', JString (ustr (isoformat d))),
      (''mystic_time'', JString (get_mystic_time d)),
      (''total_spirits'', JInt (int (length (entities m)))),
      (''mysteries'', JArray (map (\<lambda>(k, e). mystery d e) (entities m))),
      (''system_whispers'',
         JArray (map (\<lambda>w. JString (ustr w)) (get_recent_whispers 10 (collector m))))]"

text \<open>
  The files: a path holds a text, or opening it for appending raises.  A path that does
  not exist yet holds the empty text, since mode \<^verbatim>\<open>'a'\<close> creates it.
\<close>

type_synonym filesystem = "string \<Rightarrow> exc + ustring"

definition save_mysteries ::
  "host \<Rightarrow> datetime \<Rightarrow> NetworkMystic \<Rightarrow> filesystem \<Rightarrow> NetworkMystic \<times> filesystem" where
  "save_mysteries h d m fs =
     (case log_file (config m) of
        None \<Rightarrow> (m, fs)
      | Some path \<Rightarrow>
          if path = [] then (m, fs)
          else (case fs path of
                  Inl e \<Rightarrow>
                    (m\<lparr>collector := collector_add_whisper d ''Archivist''
                         (''Failed to save: '' @ exc_str e) ''ERROR'' (collector m)\<rparr>, fs)
                | Inr old \<Rightarrow>
                    (m, fs(path := Inr (old @ json_dump h 0 (log_entry d m) @ [0x0A])))))"

definition cleanup ::
  "host \<Rightarrow> datetime \<Rightarrow> NetworkMystic \<Rightarrow> filesystem \<Rightarrow> NetworkMystic \<times> filesystem" where
  "cleanup h d m fs =
     save_mysteries h d
       (m\<lparr>collector := collector_add_whisper d ''Mystic'' ''Ritual complete. Veil closing...''
            ''INFO'' (collector m)\<rparr>) fs"

section \<open>The event loop\<close>

definition ritual_moon_cycle :: "real \<Rightarrow> string" where
  "ritual_moon_cycle t =
     (let moon_cycle = (t - 2419200 * of_int \<lfloor>t / 2419200\<rfloor>) / 2419200
      in if moon_cycle < 1 / 4 then ''New Moon: Spirits are quiet''
         else if moon_cycle < 1 / 2 then ''Waxing Moon: Connections strengthen''
         else if moon_cycle < 3 / 4 then ''Full Moon: Maximum flow''
         else ''Waning Moon: Paths fade'')"

definition ritual_tide_change :: "host \<Rightarrow> real \<Rightarrow> string" where
  "ritual_tide_change h t =
     (let tide = math_sin h (t / 3600)
      in if tide > 7 / 10 then ''High Tide: Data flows freely''
         else if tide < - (7 / 10) then ''Low Tide: Channels narrow''
         else ''Changing Tide: Flux in patterns'')"

definition ritual_star_alignment :: "rng \<Rightarrow> string \<times> rng" where
  "ritual_star_alignment g =
     random_choice [''Stars favor communication'', ''Constellations whisper of packets'',
       ''Celestial paths clear'', ''Starlight reveals hidden flows'',
       ''Galactic currents shift''] g"

definition ritual_wind_shift :: "rng \<Rightarrow> string \<times> rng" where
  "ritual_wind_shift g =
     random_choice [''Northern Wind: Cold data streams'', ''Southern Wind: Warm connections'',
       ''Eastern Wind: Dawn of new packets'', ''Western Wind: Dusk of old routes'',
       ''Still Air: Silent monitoring''] g"

definition rituals :: "host \<Rightarrow> real \<Rightarrow> (rng \<Rightarrow> string \<times> rng) list" where
  "rituals h t = [\<lambda>g. (ritual_moon_cycle t, g), \<lambda>g. (ritual_tide_change h t, g),
     ritual_star_alignment, ritual_wind_shift]"

definition perform_rituals ::
  "host \<Rightarrow> real \<Rightarrow> datetime \<Rightarrow> NetworkMystic \<Rightarrow> rng \<Rightarrow> NetworkMystic \<times> rng" where
  "perform_rituals h t d m g =
     (case random_random g of (u, g1) \<Rightarrow>
        if u < 1 / 10
        then (case random_choice (rituals h t) g1 of (ritual, g2) \<Rightarrow>
              case ritual g2 of (result, g3) \<Rightarrow>
                (m\<lparr>collector := collector_add_whisper d ''Ritual'' result ''MYSTIC''
                     (collector m)\<rparr>, g3))
        else (m, g1))"

text \<open>The lines of \<^verbatim>\<open>run_ritual\<close> before its loop, at wall clock \<open>d\<close>.\<close>

definition start_ritual :: "datetime \<Rightarrow> NetworkMystic \<Rightarrow> NetworkMystic" where
  "start_ritual d m =
     (let m1 = (init_colors m)\<lparr>running := True\<rparr>
      in m1\<lparr>collector := collector_add_whisper d ''Mystic'' ''Beginning the ritual...'' ''INFO''
             (collector m1)\<rparr>)"

text \<open>
  One pass of the \<^verbatim>\<open>while self.running\<close> loop of \<^verbatim>\<open>run_ritual\<close>.  Its inputs: the key that
  \<^verbatim>\<open>getch\<close> returns (\<open>-1\<close> for none), the reading \<open>now\<close> of \<^verbatim>\<open>time.time()\<close> at line 638, what
  reading the counter source gives, the later reading \<open>scan_time\<close> of \<^verbatim>\<open>time.time()\<close>
  inside \<^verbatim>\<open>scan_spirits\<close>, and the wall clock.
\<close>

record tick =
  key :: int
  now :: real
  source :: "exc + string list"
  scan_time :: real
  wall :: datetime

definition info_whisper :: "datetime \<Rightarrow> string \<Rightarrow> NetworkMystic \<Rightarrow> NetworkMystic" where
  "info_whisper d message m =
     m\<lparr>collector := collector_add_whisper d ''Mystic'' message ''INFO'' (collector m)\<rparr>"

definition handle_key ::
  "host \<Rightarrow> tick \<Rightarrow> NetworkMystic \<Rightarrow> rng \<Rightarrow> NetworkMystic \<times> rng" where
  "handle_key h t m g =
     (if key t = 113 then (m\<lparr>running := False\<rparr>, g)
      else if key t = 32 then perform_rituals h (now t) (wall t) m g
      else if key t = 114 then (info_whisper (wall t) ''Ritual refreshed'' m, g)
      else if key t = 108 then
        (let m1 = m\<lparr>config := (config m)\<lparr>show_loopback := \<not> show_loopback (config m)\<rparr>\<rparr>
         in (info_whisper (wall t)
               (''Loopback spirits '' @ (if show_loopback (config m1) then ''shown'' else ''hidden''))
               m1, g))
      else if key t = 97 then
        (let m1 = m\<lparr>config := (config m)\<lparr>ancient_script := \<not> ancient_script (config m)\<rparr>\<rparr>
         in (info_whisper (wall t)
               (''Ancient script '' @ (if ancient_script (config m1) then ''enabled'' else ''disabled''))
               m1, g))
      else (m, g))"

type_synonym world = "NetworkMystic \<times> screen \<times> rng"

text \<open>
  Lines 638 to 645, inside the \<^verbatim>\<open>try\<close> of the loop: an exception that leaves
  \<^verbatim>\<open>draw_veil\<close> is reported to the collector and \<^verbatim>\<open>last_update\<close> keeps its value.
\<close>

definition sample_cycle :: "host \<Rightarrow> tick \<Rightarrow> world \<Rightarrow> world" where
  "sample_cycle h t w =
     (case w of (m, scr, g) \<Rightarrow>
        if now t - last_update m \<ge> update_interval (config m)
        then (case scan_spirits (source t) (scan_time t) (wall t) m g of (m1, g1) \<Rightarrow>
              case perform_rituals h (scan_time t) (wall t) m1 g1 of (m2, g2) \<Rightarrow>
               (case draw_veil h m2 (wall t) scr of
                  (scr1, None) \<Rightarrow> (m2\<lparr>last_update := now t\<rparr>, scr1, g2)
                | (scr1, Some e) \<Rightarrow>
                    (m2\<lparr>collector := collector_add_whisper (wall t) ''Mystic''
                          (''Error: '' @ exc_str e) ''ERROR'' (collector m2)\<rparr>, scr1, g2)))
        else w)"

definition ritual_iteration :: "host \<Rightarrow> tick \<Rightarrow> world \<Rightarrow> world" where
  "ritual_iteration h t w =
     (case w of (m, scr, g) \<Rightarrow>
        case handle_key h t m g of (m1, g1) \<Rightarrow> sample_cycle h t (m1, scr, g1))"

text \<open>The loop over a list of passes; it ends when \<^verbatim>\<open>running\<close> is cleared.\<close>

fun run_ritual :: "host \<Rightarrow> tick list \<Rightarrow> world \<Rightarrow> world" where
  "run_ritual h [] w = w"
| "run_ritual h (t # ts) w =
     (if running (fst w) then run_ritual h ts (ritual_iteration h t w) else w)"

section \<open>Reading a scan row by row\<close>

text \<open>
  What \<^verbatim>\<open>scan_spirits\<close> makes of one row, written as a classification so that properties
  of a whole scan can name the rows they speak of.  A row is skipped (blank, no colon, no
  name, or the hidden loopback), or it names an id; a row that names an id is malformed
  (fewer than 16 fields), or unparsable (a counter that \<^verbatim>\<open>int\<close> rejects), or a sample.
  Lemma \<open>scan_row_classify\<close> below shows that the loop body acts by this classification.
\<close>

datatype row = Skipped | Malformed string | Unparsable string exc | Sample string int int

definition classify_row :: "bool \<Rightarrow> string \<Rightarrow> row" where
  "classify_row show_lo line =
     (if strip line = [] then Skipped
      else let parts = split_on CHR '':'' line in
        if length parts < 2 then Skipped
        else let iface = strip (parts ! 0) in
          if iface = [] \<or> (iface = ''lo'' \<and> \<not> show_lo) then Skipped
          else let data = split_ws (parts ! 1) in
            if length data < 16 then Malformed iface
            else (case py_int (data ! 0) of
                    Inl e \<Rightarrow> Unparsable iface e
                  | Inr rx \<Rightarrow>
                      (case py_int (data ! 8) of
                         Inl e \<Rightarrow> Unparsable iface e
                       | Inr tx \<Rightarrow> Sample iface rx tx)))"

fun row_id :: "row \<Rightarrow> string option" where
  "row_id Skipped = None"
| "row_id (Malformed i) = Some i"
| "row_id (Unparsable i e) = Some i"
| "row_id (Sample i rx tx) = Some i"

fun is_sample_of :: "string \<Rightarrow> row \<Rightarrow> bool" where
  "is_sample_of i (Sample j rx tx) = (i = j)"
| "is_sample_of i r = False"

fun is_unparsable :: "row \<Rightarrow> bool" where
  "is_unparsable (Unparsable i e) = True"
| "is_unparsable r = False"

text \<open>The rows of a scan: the lines after the two header lines, classified.\<close>

definition scan_rows_of :: "NetworkMystic \<Rightarrow> string list \<Rightarrow> row list" where
  "scan_rows_of m all_lines = map (classify_row (show_loopback (config m))) (drop 2 all_lines)"

definition named_ids :: "row list \<Rightarrow> string set" where
  "named_ids rows = {i. Some i \<in> row_id ` set rows}"

definition sampled_ids :: "row list \<Rightarrow> string set" where
  "sampled_ids rows = {i. \<exists>r \<in> set rows. is_sample_of i r}"

definition tracked_ids :: "NetworkMystic \<Rightarrow> string list" where
  "tracked_ids m = map fst (entities m)"

text \<open>The messages of the collector after a list of creation or removal events.\<close>

definition veil_events :: "datetime \<Rightarrow> string list \<Rightarrow> string list \<Rightarrow> string list" where
  "veil_events d ws msgs =
     foldl (\<lambda>acc msg. collector_add_whisper d ''Veil'' msg ''SPIRIT'' acc) ws msgs"

section \<open>Notions for the renderer's properties\<close>

text \<open>
  Two screens have the same grid when they differ at most in what has been written.
  A drawing step keeps the grid, never raises, or raises \<^verbatim>\<open>curses.error\<close> at most.
\<close>

definition same_grid :: "screen \<Rightarrow> screen \<Rightarrow> bool" where
  "same_grid a b = (height a = height b \<and> width a = width b \<and> LINES a = LINES b
     \<and> COLS a = COLS b \<and> accepts a = accepts b)"

definition keeps_grid :: "draw \<Rightarrow> bool" where
  "keeps_grid f = (\<forall>scr. same_grid scr (fst (f scr)))"

definition never_raises :: "draw \<Rightarrow> bool" where
  "never_raises f = (\<forall>scr. snd (f scr) = None)"

fun is_curses_error :: "exc option \<Rightarrow> bool" where
  "is_curses_error None = True"
| "is_curses_error (Some (CursesError msg)) = True"
| "is_curses_error (Some e) = False"

definition only_curses :: "draw \<Rightarrow> bool" where
  "only_curses f = (\<forall>scr. is_curses_error (snd (f scr)))"

text \<open>
  The colour pairs that \<^verbatim>\<open>draw_spirit_info\<close> reads outside a handler of its own are
  defined, as they are after \<^verbatim>\<open>init_colors\<close>.
\<close>

definition colors_ready :: "NetworkMystic \<Rightarrow> bool" where
  "colors_ready m = (map_of (colors m) 2 \<noteq> None \<and> map_of (colors m) 3 \<noteq> None
     \<and> map_of (colors m) 4 \<noteq> None)"

text \<open>
  Every glyph sits in the local canvas that \<^verbatim>\<open>update_glyphs\<close> spawns it in: columns 0
  to 20, rows 0 to 5.
\<close>

definition glyph_local :: "Glyph \<Rightarrow> bool" where
  "glyph_local gl = (0 \<le> fst (position gl) \<and> fst (position gl) \<le> 20
     \<and> 0 \<le> snd (position gl) \<and> snd (position gl) \<le> 5)"

definition glyphs_local :: "NetworkMystic \<Rightarrow> bool" where
  "glyphs_local m = (\<forall>ke \<in> set (entities m). \<forall>gl \<in> set (glyphs (snd ke)). glyph_local gl)"

text \<open>The library refuses a write for no other reason than its target.\<close>

definition accepts_all :: "screen \<Rightarrow> bool" where
  "accepts_all scr = (\<forall>y x s. accepts scr y x s)"

text \<open>The rules by which a property of a drawing step follows from those of its parts.\<close>

named_theorems draw_intros

text \<open>The id and name of every tracked entity, in the dictionary's order.\<close>

definition id_names :: "NetworkMystic \<Rightarrow> (string \<times> string) list" where
  "id_names m = map (\<lambda>(k, e). (k, name e)) (entities m)"

section \<open>Example values\<close>

text \<open>Concrete inputs at which the theorems below are checked.\<close>

definition example_glyph :: "real \<Rightarrow> Glyph" where
  "example_glyph i = \<lparr>type = PULSE, intensity = i, position = (3, 1), age = 4,
     char = [0x25CF], color_pair = 2\<rparr>"

definition example_entity :: NetworkEntity where
  "example_entity = \<lparr>name = ''Silent River (eth0)'', interface = ''eth0'', rx_bytes = 1000,
     tx_bytes = 500, rx_rate = 0, tx_rate = 0, essence = 1 / 2, aura = ''Moon Silver'',
     glyphs = [example_glyph (1 / 2), example_glyph (1 / 10)], last_seen = 10,
     whispers = []\<rparr>"

definition example_clock :: datetime where
  "example_clock = \<lparr>year = 2024, month = 1, day = 2, hour = 3, minute = 4, second = 5,
     microsecond = 0\<rparr>"

definition example_header :: "string list" where
  "example_header = [''Inter-|   Receive                |  Transmit'',
     '' face |bytes    packets |bytes    packets'']"

definition rows_eth0 :: "string list" where
  "rows_eth0 = example_header @ [''  eth0: 1000 9 0 0 0 0 0 0 500 7 0 0 0 0 0 0'']"

definition rows_eth0_later :: "string list" where
  "rows_eth0_later = example_header @ [''  eth0: 3000 9 0 0 0 0 0 0 2500 7 0 0 0 0 0 0'']"

definition rows_eth0_short :: "string list" where
  "rows_eth0_short = example_header @ [''  eth0: 3000 9 0'']"

definition rows_wlan0_short :: "string list" where
  "rows_wlan0_short = example_header @ [''  eth0: 3000 9 0 0 0 0 0 0 2500 7 0 0 0 0 0 0'',
     '' wlan0: 77 1 0'']"

text \<open>
  A host on which no interface has an address, whose one float text is that of the
  examples' essence, and a monitor at the start of \<^verbatim>\<open>run_ritual\<close>, created at time 0 with
  the default configuration.
\<close>

definition example_host :: host where
  "example_host = \<lparr>ip_addr_show = (\<lambda>i. Inr []), format_fixed = (\<lambda>n r. ''0.55''),
     float_repr = (\<lambda>r. ''0.55''), math_sin = (\<lambda>x. 0)\<rparr>"

definition example_monitor :: NetworkMystic where
  "example_monitor = start_ritual example_clock (new_mystic default_config 0)"

definition example_screen :: "int \<Rightarrow> int \<Rightarrow> screen" where
  "example_screen h w = \<lparr>height = h, width = w, LINES = h, COLS = w,
     accepts = (\<lambda>y x s. True), cells = []\<rparr>"

definition example_tick :: "real \<Rightarrow> exc + string list \<Rightarrow> tick" where
  "example_tick t src = \<lparr>key = - 1, now = t, source = src, scan_time = t,
     wall = example_clock\<rparr>"

definition example_tape :: rng where
  "example_tape = (\<lambda>n. 1 / 2)"

text \<open>The state after the given passes of the loop, on a grid of 10 columns and 5 rows.\<close>

definition example_world :: "tick list \<Rightarrow> world" where
  "example_world ts =
     run_ritual example_host ts (example_monitor, example_screen 5 10, example_tape)"

text \<open>
  Files in which every path can be opened and is still empty, and the text that
  \<^verbatim>\<open>save_mysteries\<close> appends to the default log file for the monitor at its start.
\<close>

definition example_files :: filesystem where
  "example_files = (\<lambda>p. Inr [])"

definition example_saved :: ustring where
  "example_saved =
     (case snd (save_mysteries example_host example_clock example_monitor example_files)
        ''network_mysteries.log'' of
        Inl e \<Rightarrow> []
      | Inr content \<Rightarrow> content)"

text \<open>The monitor after a first sample cycle at time 10 that found \<^verbatim>\<open>eth0\<close>.\<close>

definition example_tracked :: NetworkMystic where
  "example_tracked =
     (fst (scan_spirits (Inr rows_eth0) 10 example_clock example_monitor example_tape))
       \<lparr>last_update := 10\<rparr>"

text \<open>
  A monitor that tracks \<^verbatim>\<open>lo\<close> while the loopback is hidden: the key \<^verbatim>\<open>l\<close> showed the
  loopback, a scan at time 10 found \<^verbatim>\<open>lo\<close>, and the key \<^verbatim>\<open>l\<close> hid the loopback again.
  The next source holds a short row for \<^verbatim>\<open>lo\<close>.
\<close>

definition rows_lo :: "string list" where
  "rows_lo = example_header @ [''    lo: 1000 9 0 0 0 0 0 0 1000 9 0 0 0 0 0 0'']"

definition rows_lo_short :: "string list" where
  "rows_lo_short = example_header @ [''    lo: 3000 9 0'']"

definition example_key :: "int \<Rightarrow> tick" where
  "example_key k = (example_tick 10 (Inr rows_lo))\<lparr>key := k\<rparr>"

definition example_loopback_shown :: NetworkMystic where
  "example_loopback_shown =
     fst (handle_key example_host (example_key 108) example_monitor example_tape)"

definition example_loopback_tracked :: NetworkMystic where
  "example_loopback_tracked =
     (fst (scan_spirits (Inr rows_lo) 10 example_clock example_loopback_shown example_tape))
       \<lparr>last_update := 10\<rparr>"

definition example_loopback_hidden :: NetworkMystic where
  "example_loopback_hidden =
     fst (handle_key example_host (example_key 108) example_loopback_tracked example_tape)"



text \<open>
  A run of the loop in which the source is read at time 10, cannot be read at time 11,
  and is read again at time 12; and the entity of \<^verbatim>\<open>eth0\<close> before and after the third
  pass.
\<close>

definition example_passes :: "tick list" where
  "example_passes = [example_tick 10 (Inr rows_eth0), example_tick 11 (Inl (OSError ''gone''))]"

definition example_eth0_before :: NetworkEntity where
  "example_eth0_before = the (map_of (entities (fst (example_world example_passes))) ''eth0'')"

definition example_eth0_after :: NetworkEntity where
  "example_eth0_after =
     the (map_of (entities (fst (example_world
       (example_passes @ [example_tick 12 (Inr rows_eth0_later)])))) ''eth0'')"

section \<open>Properties of the glyph animation\<close>

lemma uniform_tape_next: "uniform_tape g \<Longrightarrow> uniform_tape (rng_next g)"
  by (simp add: uniform_tape_def rng_next_def)

lemma uniform_random_choice: "uniform_tape g \<Longrightarrow> uniform_tape (snd (random_choice xs g))"
  by (simp add: random_choice_def randbelow_def uniform_tape_next)

lemma uniform_spawn_glyph: "uniform_tape g \<Longrightarrow> uniform_tape (snd (spawn_glyph k i g))"
  by (simp add: spawn_glyph_def random_randint_def randbelow_def uniform_tape_next)

lemma uniform_spawn_flow: "uniform_tape g \<Longrightarrow> uniform_tape (snd (spawn_flow fi g))"
  using uniform_spawn_glyph [of "rng_next g" FLOW fi]
  by (simp add: spawn_flow_def random_random_def uniform_tape_next case_prod_beta)

lemma uniform_decay_glyphs: "uniform_tape g \<Longrightarrow> uniform_tape (snd (decay_glyphs gs g))"
proof (induction gs arbitrary: g)
  case Nil
  then show ?case by simp
next
  case (Cons gl gls)
  have "uniform_tape (snd (random_choice (glyph_chars (type gl)) g))"
    using Cons.prems by (rule uniform_random_choice)
  then show ?case
    using Cons.IH by (simp add: Let_def case_prod_beta)
qed

text \<open>Apart from the re-chosen character, the loop maps the decay over the glyphs it keeps.\<close>

lemma decay_glyphs_fst:
  "map (\<lambda>gl. gl\<lparr>char := c0\<rparr>) (fst (decay_glyphs gs g)) =
   map (\<lambda>gl. gl\<lparr>age := age gl + 1, intensity := intensity gl * (95 / 100), char := c0\<rparr>)
     (filter (\<lambda>gl. 1 / 10 < intensity gl * (95 / 100)) gs)"
  by (induction gs arbitrary: g) (simp_all add: Let_def case_prod_beta)

lemma length_decay_glyphs:
  "length (fst (decay_glyphs gs g)) =
   length (filter (\<lambda>gl. 1 / 10 < intensity gl * (95 / 100)) gs)"
  using arg_cong [OF decay_glyphs_fst [of "[]" gs g], of length] by simp

lemma spawn_flow_age: "gl \<in> set (fst (spawn_flow fi g)) \<Longrightarrow> age gl = 0"
  by (auto simp: spawn_flow_def spawn_glyph_def split: prod.splits if_splits)

lemma spawn_whisper_age: "gl \<in> set (fst (spawn_whisper ess g)) \<Longrightarrow> age gl = 0"
  by (auto simp: spawn_whisper_def spawn_glyph_def split: prod.splits if_splits)

lemma glyphs_update_glyphs:
  "glyphs (fst (update_glyphs e g)) =
     fst (decay_glyphs (glyphs e) g)
     @ fst (spawn_flow (flow_intensity (rx_rate e) (tx_rate e)) (snd (decay_glyphs (glyphs e) g)))
     @ fst (spawn_whisper (essence e)
         (snd (spawn_flow (flow_intensity (rx_rate e) (tx_rate e))
                (snd (decay_glyphs (glyphs e) g)))))"
  by (simp add: update_glyphs_def case_prod_beta)

text \<open>
  Claim C3.  One call of \<^verbatim>\<open>update_glyphs\<close> is one tick of the animation.  Let \<open>kept\<close> be the
  glyphs of the entity whose intensity, multiplied by 0.95, is still above 0.1.  After
  the tick the entity's collection begins with exactly the glyphs of \<open>kept\<close>, in their
  order, each with its intensity multiplied by 0.95 and its age raised by one (only the
  display character is chosen again); a glyph whose decayed intensity is 0.1 or less is
  not among them.  Whatever follows in the collection was spawned in this tick and has
  age 0.  For a positive intensity the decayed value is strictly smaller.  Intensities
  are exact reals here.
\<close>

theorem update_glyphs_decay:
  "(let kept = filter (\<lambda>gl. 1 / 10 < intensity gl * (95 / 100)) (glyphs e);
        new = glyphs (fst (update_glyphs e g))
    in map (\<lambda>gl. gl\<lparr>char := []\<rparr>) (take (length kept) new) =
         map (\<lambda>gl. gl\<lparr>age := age gl + 1, intensity := intensity gl * (95 / 100), char := []\<rparr>)
           kept
       \<and> (\<forall>gl \<in> set (drop (length kept) new). age gl = 0)
       \<and> (\<forall>gl \<in> set (glyphs e). 0 < intensity gl \<longrightarrow>
             intensity gl * (95 / 100) < intensity gl))"
proof -
  let ?kept = "filter (\<lambda>gl. 1 / 10 < intensity gl * (95 / 100)) (glyphs e)"
  let ?act = "fst (decay_glyphs (glyphs e) g)"
  have len: "length ?act = length ?kept" by (rule length_decay_glyphs)
  have a: "take (length ?kept) (glyphs (fst (update_glyphs e g))) = ?act"
    unfolding glyphs_update_glyphs len [symmetric] by simp
  have b: "\<forall>gl \<in> set (drop (length ?kept) (glyphs (fst (update_glyphs e g)))). age gl = 0"
    unfolding glyphs_update_glyphs len [symmetric]
    using spawn_flow_age spawn_whisper_age by auto
  show ?thesis
    unfolding Let_def a using b by (simp add: decay_glyphs_fst)
qed

theorem update_glyphs_decay_witness:
  "map (\<lambda>gl. gl\<lparr>char := []\<rparr>) (take 1 (glyphs (fst (update_glyphs example_entity (\<lambda>n. 0))))) =
     [\<lparr>type = PULSE, intensity = 19 / 40, position = (3, 1), age = 5, char = [],
       color_pair = 2\<rparr>]
   \<and> length (glyphs (fst (update_glyphs example_entity (\<lambda>n. 0)))) = 2
   \<and> intensity (example_glyph (1 / 2)) * (95 / 100) < intensity (example_glyph (1 / 2))"
  using update_glyphs_decay [of example_entity "\<lambda>n. 0"]
  by (simp add: Let_def example_entity_def example_glyph_def glyphs_update_glyphs
      spawn_flow_def spawn_whisper_def spawn_glyph_def random_random_def random_randint_def
      random_choice_def randbelow_def rng_next_def flow_intensity_def)

text \<open>
  Claim C7.  In \<^verbatim>\<open>update_glyphs\<close> the whisper trial reads the draw \<open>u\<close> that follows the
  draws of the decay loop and of the flow trial.  If \<open>u\<close> is below \<open>essence * 0.2\<close>, exactly
  one glyph is appended after the kept and the flow glyphs: it is of kind Whisper, has
  the entity's essence as its intensity and age 0.  If \<open>u\<close> is not below it, nothing is
  appended.  With essence 0 no draw of a uniform tape (all draws in \<open>[0, 1)\<close>) spawns a
  whisper glyph.
\<close>

theorem whisper_spawn:
  "(let active = fst (decay_glyphs (glyphs e) g);
        g1 = snd (decay_glyphs (glyphs e) g);
        fl = fst (spawn_flow (flow_intensity (rx_rate e) (tx_rate e)) g1);
        g2 = snd (spawn_flow (flow_intensity (rx_rate e) (tx_rate e)) g1);
        u = fst (random_random g2);
        new = glyphs (fst (update_glyphs e g))
    in (u < essence e * (2 / 10) \<longrightarrow>
          (\<exists>w. new = active @ fl @ [w] \<and> type w = WHISPER \<and> intensity w = essence e
             \<and> age w = 0))
       \<and> (\<not> u < essence e * (2 / 10) \<longrightarrow> new = active @ fl)
       \<and> (uniform_tape g \<and> essence e = 0 \<longrightarrow> new = active @ fl))"
proof -
  let ?g1 = "snd (decay_glyphs (glyphs e) g)"
  let ?g2 = "snd (spawn_flow (flow_intensity (rx_rate e) (tx_rate e)) ?g1)"
  have pos: "uniform_tape g \<Longrightarrow> 0 \<le> fst (random_random ?g2)"
  proof -
    assume "uniform_tape g"
    then have "uniform_tape ?g2"
      by (intro uniform_spawn_flow uniform_decay_glyphs)
    then show ?thesis by (simp add: random_random_def uniform_tape_def)
  qed
  have yes: "fst (random_random ?g2) < essence e * (2 / 10) \<Longrightarrow>
      \<exists>w. fst (spawn_whisper (essence e) ?g2) = [w] \<and> type w = WHISPER
        \<and> intensity w = essence e \<and> age w = 0"
    by (simp add: spawn_whisper_def spawn_glyph_def case_prod_beta)
  have no: "\<not> fst (random_random ?g2) < essence e * (2 / 10) \<Longrightarrow>
      fst (spawn_whisper (essence e) ?g2) = []"
    by (simp add: spawn_whisper_def case_prod_beta)
  show ?thesis
    unfolding Let_def glyphs_update_glyphs using pos yes no by fastforce
qed

theorem whisper_spawn_witness:
  "glyphs (fst (update_glyphs (example_entity\<lparr>glyphs := []\<rparr>) (\<lambda>n. 0))) =
     [\<lparr>type = WHISPER, intensity = 1 / 2, position = (0, 0), age = 0, char = [0x20],
       color_pair = 1\<rparr>]
   \<and> glyphs (fst (update_glyphs (example_entity\<lparr>glyphs := []\<rparr>) (\<lambda>n. 1 / 2))) = []
   \<and> glyphs (fst (update_glyphs (example_entity\<lparr>glyphs := [], essence := 0\<rparr>) (\<lambda>n. 0))) = []"
  using whisper_spawn [of "example_entity\<lparr>glyphs := []\<rparr>" "\<lambda>n. 0"]
    whisper_spawn [of "example_entity\<lparr>glyphs := []\<rparr>" "\<lambda>n. 1 / 2"]
    whisper_spawn [of "example_entity\<lparr>glyphs := [], essence := 0\<rparr>" "\<lambda>n. 0"]
  by (simp add: Let_def example_entity_def example_glyph_def glyphs_update_glyphs
      spawn_flow_def spawn_whisper_def spawn_glyph_def random_random_def random_randint_def
      random_choice_def randbelow_def rng_next_def flow_intensity_def uniform_tape_def)

section \<open>Properties of the scan\<close>

lemma scan_row_classify:
  "scan_row ct d line (m, found, g) =
     (case classify_row (show_loopback (config m)) line of
        Skipped \<Rightarrow> ((m, found, g), None)
      | Malformed i \<Rightarrow> ((m, insert i found, g), None)
      | Unparsable i e \<Rightarrow> ((m, insert i found, g), Some e)
      | Sample i rx tx \<Rightarrow>
          (case observe ct d i rx tx m g of (m', g') \<Rightarrow> ((m', insert i found, g'), None)))"
  by (simp add: scan_row_def classify_row_def Let_def split: sum.splits)

lemma name_add_whisper [simp]: "name (add_whisper d msg e) = name e"
  by (simp add: add_whisper_def Let_def)

lemma name_status_whisper [simp]: "name (status_whisper d e) = name e"
  by (simp add: status_whisper_def)

lemma name_sample_entity [simp]: "name (sample_entity ct lu d rx tx e) = name e"
  by (simp add: sample_entity_def Let_def)

lemma name_update_glyphs [simp]: "name (fst (update_glyphs e g)) = name e"
  by (simp add: update_glyphs_def case_prod_beta)

lemma update_append_new:
  "k \<notin> fst ` set al \<Longrightarrow> AList.update k v (al @ [(k, w)]) = al @ [(k, v)]"
  by (induction al) auto

lemma observe_tracked:
  "map_of (entities m) i = Some e \<Longrightarrow>
   fst (observe ct d i rx tx m g) =
     m\<lparr>entities := AList.update i (fst (update_glyphs (sample_entity ct (last_update m) d rx tx e) g))
           (entities m)\<rparr>"
  by (simp add: observe_def case_prod_beta)

lemma observe_new:
  "map_of (entities m) i = None \<Longrightarrow>
   fst (observe ct d i rx tx m g) =
     m\<lparr>entities := entities m @
          [(i, fst (update_glyphs
                (sample_entity ct (last_update m) d rx tx (fst (new_entity i i ct g)))
                (snd (new_entity i i ct g))))],
       collector := collector_add_whisper d ''Veil''
          (spirit_message (name (fst (new_entity i i ct g))) ''appeared'') ''SPIRIT'' (collector m)\<rparr>"
proof -
  assume n: "map_of (entities m) i = None"
  then have notin: "i \<notin> fst ` set (entities m)"
    by (simp add: map_of_eq_None_iff)
  show ?thesis
    using n by (simp add: observe_def case_prod_beta update_append_new [OF notin])
qed


lemma observe_config [simp]:
  "config (fst (observe ct d i rx tx m g)) = config m"
  "last_update (fst (observe ct d i rx tx m g)) = last_update m"
  "colors (fst (observe ct d i rx tx m g)) = colors m"
  "running (fst (observe ct d i rx tx m g)) = running m"
  by (cases "map_of (entities m) i"; simp add: observe_tracked observe_new)+

lemma map_update_same:
  "map_of al k = Some e \<Longrightarrow> f v = f e \<Longrightarrow>
   map (\<lambda>(k, e). (k, f e)) (AList.update k v al) = map (\<lambda>(k, e). (k, f e)) al"
  by (induction al) (auto split: if_splits)

lemma observe_id_names:
  "\<exists>new. id_names (fst (observe ct d i rx tx m g)) = id_names m @ new
     \<and> collector (fst (observe ct d i rx tx m g)) =
         veil_events d (collector m) (map (\<lambda>kn. spirit_message (snd kn) ''appeared'') new)
     \<and> fst ` set new = {i} - fst ` set (entities m)"
proof (cases "map_of (entities m) i")
  case None
  then have "i \<notin> fst ` set (entities m)" by (simp add: map_of_eq_None_iff)
  then show ?thesis
    by (auto simp: observe_new [OF None] id_names_def veil_events_def)
next
  case (Some e)
  then have "i \<in> fst ` set (entities m)"
    by (metis domI dom_map_of_conv_image_fst)
  then show ?thesis
    by (simp add: observe_tracked [OF Some] id_names_def veil_events_def map_update_same [OF Some])
qed

lemma observe_other:
  "k \<noteq> i \<Longrightarrow> map_of (entities (fst (observe ct d i rx tx m g))) k = map_of (entities m) k"
  by (cases "map_of (entities m) i")
    (auto simp: observe_tracked observe_new AList.update_conv' map_add_def split: option.splits)

lemma observe_distinct:
  "distinct (map fst (entities m)) \<Longrightarrow> distinct (map fst (entities (fst (observe ct d i rx tx m g))))"
  by (cases "map_of (entities m) i")
    (simp_all add: observe_tracked observe_new AList.distinct_update map_of_eq_None_iff)


lemma named_ids_simps [simp]:
  "named_ids [] = {}"
  "named_ids (Skipped # rs) = named_ids rs"
  "named_ids (Malformed i # rs) = insert i (named_ids rs)"
  "named_ids (Unparsable i e # rs) = insert i (named_ids rs)"
  "named_ids (Sample i rx tx # rs) = insert i (named_ids rs)"
  by (auto simp: named_ids_def)

lemma sampled_ids_simps [simp]:
  "sampled_ids [] = {}"
  "sampled_ids (Skipped # rs) = sampled_ids rs"
  "sampled_ids (Malformed i # rs) = sampled_ids rs"
  "sampled_ids (Unparsable i e # rs) = sampled_ids rs"
  "sampled_ids (Sample i rx tx # rs) = insert i (sampled_ids rs)"
  by (auto simp: sampled_ids_def)

lemma sampled_subset_named: "sampled_ids rs \<subseteq> named_ids rs"
proof (induction rs)
  case Nil
  then show ?case by simp
next
  case (Cons r rs)
  then show ?case by (cases r) auto
qed

text \<open>The monitor, the found set and the exception after the rows.\<close>

lemma scan_rows_static:
  "config (fst (fst (scan_rows ct d ls (m, found, g)))) = config m
   \<and> last_update (fst (fst (scan_rows ct d ls (m, found, g)))) = last_update m
   \<and> colors (fst (fst (scan_rows ct d ls (m, found, g)))) = colors m
   \<and> running (fst (fst (scan_rows ct d ls (m, found, g)))) = running m"
proof (induction ls arbitrary: m found g)
  case Nil
  then show ?case by simp
next
  case (Cons l ls)
  show ?case
  proof (cases "classify_row (show_loopback (config m)) l")
    case (Sample i rx tx)
    then show ?thesis
      using Cons.IH [of "fst (observe ct d i rx tx m g)" "insert i found"
          "snd (observe ct d i rx tx m g)"]
      by (simp add: scan_row_classify case_prod_beta)
  qed (simp_all add: scan_row_classify Cons.IH)
qed

lemma scan_rows_distinct:
  "distinct (map fst (entities m)) \<Longrightarrow>
   distinct (map fst (entities (fst (fst (scan_rows ct d ls (m, found, g))))))"
proof (induction ls arbitrary: m found g)
  case Nil
  then show ?case by simp
next
  case (Cons l ls)
  show ?case
  proof (cases "classify_row (show_loopback (config m)) l")
    case (Sample i rx tx)
    then show ?thesis
      using Cons.IH [of "fst (observe ct d i rx tx m g)" "insert i found"
          "snd (observe ct d i rx tx m g)"] Cons.prems
      by (simp add: scan_row_classify case_prod_beta observe_distinct)
  qed (simp_all add: scan_row_classify Cons.IH Cons.prems)
qed

lemma scan_rows_exception:
  "show_loopback (config m) = sl \<Longrightarrow>
   (snd (scan_rows ct d ls (m, found, g)) = None) =
     (\<forall>r \<in> set (map (classify_row sl) ls). \<not> is_unparsable r)"
proof (induction ls arbitrary: m found g)
  case Nil
  then show ?case by simp
next
  case (Cons l ls)
  show ?case
  proof (cases "classify_row sl l")
    case (Sample i rx tx)
    then show ?thesis
      using Cons.IH [of "fst (observe ct d i rx tx m g)" "insert i found"
          "snd (observe ct d i rx tx m g)"] Cons.prems
      by (simp add: scan_row_classify case_prod_beta)
  qed (simp_all add: scan_row_classify Cons.IH Cons.prems)
qed

lemma scan_rows_found:
  "show_loopback (config m) = sl \<Longrightarrow> snd (scan_rows ct d ls (m, found, g)) = None \<Longrightarrow>
   fst (snd (fst (scan_rows ct d ls (m, found, g)))) = found \<union> named_ids (map (classify_row sl) ls)"
proof (induction ls arbitrary: m found g)
  case Nil
  then show ?case by simp
next
  case (Cons l ls)
  show ?case
  proof (cases "classify_row sl l")
    case (Sample i rx tx)
    then show ?thesis
      using Cons.IH [of "fst (observe ct d i rx tx m g)" "insert i found"
          "snd (observe ct d i rx tx m g)"] Cons.prems
      by (simp add: scan_row_classify case_prod_beta)
  next
    case (Unparsable i e)
    then show ?thesis using Cons.prems by (simp add: scan_row_classify)
  qed (use Cons.prems in \<open>simp_all add: scan_row_classify Cons.IH\<close>)
qed

lemma scan_rows_untouched:
  "show_loopback (config m) = sl \<Longrightarrow> k \<notin> sampled_ids (map (classify_row sl) ls) \<Longrightarrow>
   map_of (entities (fst (fst (scan_rows ct d ls (m, found, g))))) k = map_of (entities m) k"
proof (induction ls arbitrary: m found g)
  case Nil
  then show ?case by simp
next
  case (Cons l ls)
  show ?case
  proof (cases "classify_row sl l")
    case (Sample i rx tx)
    then show ?thesis
      using Cons.IH [of "fst (observe ct d i rx tx m g)" "insert i found"
          "snd (observe ct d i rx tx m g)"] Cons.prems
      by (simp add: scan_row_classify case_prod_beta observe_other)
  qed (use Cons.prems in \<open>simp_all add: scan_row_classify Cons.IH\<close>)
qed

lemma veil_events_Nil [simp]: "veil_events d ws [] = ws"
  by (simp add: veil_events_def)

lemma veil_events_append:
  "veil_events d ws (xs @ ys) = veil_events d (veil_events d ws xs) ys"
  by (simp add: veil_events_def)

lemma scan_rows_id_names:
  "show_loopback (config m) = sl \<Longrightarrow>
   \<exists>new. id_names (fst (fst (scan_rows ct d ls (m, found, g)))) = id_names m @ new
     \<and> collector (fst (fst (scan_rows ct d ls (m, found, g)))) =
         veil_events d (collector m) (map (\<lambda>kn. spirit_message (snd kn) ''appeared'') new)
     \<and> (snd (scan_rows ct d ls (m, found, g)) = None \<longrightarrow>
          fst ` set new = sampled_ids (map (classify_row sl) ls) - fst ` set (entities m))"
proof (induction ls arbitrary: m found g)
  case Nil
  then show ?case by simp
next
  case (Cons l ls)
  show ?case
  proof (cases "classify_row sl l")
    case (Sample i rx tx)
    let ?m1 = "fst (observe ct d i rx tx m g)"
    obtain new1 where n1: "id_names ?m1 = id_names m @ new1"
      "collector ?m1 = veil_events d (collector m) (map (\<lambda>kn. spirit_message (snd kn) ''appeared'') new1)"
      "fst ` set new1 = {i} - fst ` set (entities m)"
      using observe_id_names [of ct d i rx tx m g] by blast
    have sl1: "show_loopback (config ?m1) = sl" using Cons.prems by simp
    obtain new2 where n2:
      "id_names (fst (fst (scan_rows ct d ls (?m1, insert i found, snd (observe ct d i rx tx m g))))) = id_names ?m1 @ new2"
      "collector (fst (fst (scan_rows ct d ls (?m1, insert i found, snd (observe ct d i rx tx m g))))) =
         veil_events d (collector ?m1) (map (\<lambda>kn. spirit_message (snd kn) ''appeared'') new2)"
      "snd (scan_rows ct d ls (?m1, insert i found, snd (observe ct d i rx tx m g))) = None \<longrightarrow>
          fst ` set new2 = sampled_ids (map (classify_row sl) ls) - fst ` set (entities ?m1)"
      using Cons.IH [OF sl1] by blast
    have keys1: "fst ` set (entities ?m1) = insert i (fst ` set (entities m))"
    proof -
      have "fst ` set (entities ?m1) = fst ` set (id_names ?m1)"
        by (force simp: id_names_def)
      also have "\<dots> = fst ` set (id_names m) \<union> fst ` set new1"
        by (simp add: n1(1) image_Un)
      also have "fst ` set (id_names m) = fst ` set (entities m)"
        by (force simp: id_names_def)
      finally show ?thesis using n1(3) by auto
    qed
    show ?thesis
      apply (rule exI [of _ "new1 @ new2"])
      using Sample Cons.prems n1 n2 keys1
      by (auto simp: scan_row_classify case_prod_beta veil_events_append image_Un)
  next
    case (Unparsable i e)
    then show ?thesis using Cons.prems by (simp add: scan_row_classify veil_events_def)
  qed (use Cons.prems Cons.IH in \<open>simp_all add: scan_row_classify\<close>)
qed


lemma map_fst_id_names [simp]: "map fst (id_names m) = tracked_ids m"
  by (simp add: id_names_def tracked_ids_def case_prod_beta)

lemma map_of_id_names: "map_of (id_names m) i = map_option name (map_of (entities m) i)"
  unfolding id_names_def by (induction "entities m" arbitrary: m) (auto simp: map_of_map)

lemma id_names_delete:
  "map (\<lambda>(k, e). (k, name e)) (AList.delete i al) =
   filter (\<lambda>kn. fst kn \<noteq> i) (map (\<lambda>(k, e). (k, name e)) al)"
  by (induction al) auto

lemma fade_static [simp]:
  "config (fade d ids m) = config m"
  "last_update (fade d ids m) = last_update m"
  "colors (fade d ids m) = colors m"
  "running (fade d ids m) = running m"
  by (induction ids arbitrary: m; simp split: option.splits)+

lemma fade_id_names:
  "distinct ids \<Longrightarrow> set ids \<subseteq> set (tracked_ids m) \<Longrightarrow>
   id_names (fade d ids m) = filter (\<lambda>kn. fst kn \<notin> set ids) (id_names m)
   \<and> collector (fade d ids m) =
       veil_events d (collector m)
         (map (\<lambda>i. spirit_message (the (map_of (id_names m) i)) ''faded'') ids)"
proof (induction ids arbitrary: m)
  case Nil
  then show ?case by simp
next
  case (Cons i ids)
  from Cons.prems have "i \<in> fst ` set (entities m)" by (simp add: tracked_ids_def)
  then obtain sp where sp: "map_of (entities m) i = Some sp"
    by (metis domD dom_map_of_conv_image_fst)
  let ?m1 = "m\<lparr>entities := AList.delete i (entities m),
     collector := collector_add_whisper d ''Veil'' (spirit_message (name sp) ''faded'')
       ''SPIRIT'' (collector m)\<rparr>"
  have idn: "id_names ?m1 = filter (\<lambda>kn. fst kn \<noteq> i) (id_names m)"
    by (simp add: id_names_def id_names_delete)
  have sub: "set ids \<subseteq> set (tracked_ids ?m1)"
    using Cons.prems by (auto simp: tracked_ids_def AList.delete_keys)
  have same: "\<And>j. j \<in> set ids \<Longrightarrow> map_of (id_names ?m1) j = map_of (id_names m) j"
  proof -
    fix j assume "j \<in> set ids"
    then have "j \<noteq> i" using Cons.prems by auto
    then show "map_of (id_names ?m1) j = map_of (id_names m) j"
      by (simp add: map_of_id_names)
  qed
  have ih: "id_names (fade d ids ?m1) = filter (\<lambda>kn. fst kn \<notin> set ids) (id_names ?m1)
    \<and> collector (fade d ids ?m1) =
       veil_events d (collector ?m1)
         (map (\<lambda>i. spirit_message (the (map_of (id_names ?m1) i)) ''faded'') ids)"
    using Cons.IH [of ?m1] Cons.prems sub by simp
  have msgs: "map (\<lambda>i. spirit_message (the (map_of (id_names ?m1) i)) ''faded'') ids =
      map (\<lambda>i. spirit_message (the (map_of (id_names m) i)) ''faded'') ids"
    using same by (intro map_cong) (simp_all del: fun_upd_apply)
  have filt: "filter (\<lambda>kn. fst kn \<notin> set ids) (filter (\<lambda>kn. fst kn \<noteq> i) (id_names m)) =
      filter (\<lambda>kn. fst kn \<notin> set (i # ids)) (id_names m)"
    by (auto intro: filter_cong)
  have c1: "collector (fade d ids ?m1) =
      veil_events d (collector ?m1)
        (map (\<lambda>i. spirit_message (the (map_of (id_names m) i)) ''faded'') ids)"
    using ih msgs by simp
  have n1: "id_names (fade d ids ?m1) = filter (\<lambda>kn. fst kn \<notin> set (i # ids)) (id_names m)"
    using ih idn filt by simp
  have step: "fade d (i # ids) m = fade d ids ?m1"
    using sp by simp
  have nm: "the (map_of (id_names m) i) = name sp"
    using sp by (simp add: map_of_id_names)
  show ?case
    unfolding step c1 n1 by (simp add: veil_events_def nm)
qed

lemma map_the_map_of_filter:
  "distinct (map fst al) \<Longrightarrow> set xs \<subseteq> set al \<Longrightarrow>
   map (\<lambda>i. f (the (map_of al i))) (filter P (map fst xs)) =
   map (\<lambda>kn. f (snd kn)) (filter (\<lambda>kn. P (fst kn)) xs)"
  by (induction xs) auto


lemma set_tracked_ids: "set (tracked_ids m) = fst ` set (entities m)"
  by (simp add: tracked_ids_def)

lemma set_tracked_id_names: "fst ` set (id_names m) = set (tracked_ids m)"
  by (metis map_fst_id_names set_map)

lemma scan_spirits_rows:
  "scan_spirits (Inr ls) ct d m g =
     (let r = scan_rows ct d (drop 2 ls) (m, {}, g) in
      case snd r of
        Some e \<Rightarrow> (scan_failed d e (fst (fst r)), snd (snd (fst r)))
      | None \<Rightarrow> (fade d (expired_ids (fst (snd (fst r))) (fst (fst r))) (fst (fst r)),
                 snd (snd (fst r))))"
  by (simp add: scan_spirits_def Let_def split: prod.splits option.splits)

lemma scan_spirits_complete:
  assumes dist: "distinct (tracked_ids m)"
    and ok: "\<forall>r \<in> set (scan_rows_of m ls). \<not> is_unparsable r"
  shows "(let m' = fst (scan_spirits (Inr ls) ct d m g);
              rows = scan_rows_of m ls;
              created = filter (\<lambda>kn. fst kn \<notin> set (tracked_ids m)) (id_names m');
              removed = filter (\<lambda>kn. fst kn \<notin> set (tracked_ids m')) (id_names m)
          in set (tracked_ids m') =
               {i \<in> named_ids rows. i \<in> sampled_ids rows \<or> i \<in> set (tracked_ids m)}
             \<and> distinct (tracked_ids m')
             \<and> collector m' =
                 veil_events d (collector m)
                   (map (\<lambda>kn. spirit_message (snd kn) ''appeared'') created
                    @ map (\<lambda>kn. spirit_message (snd kn) ''faded'') removed))"
proof -
  define sl where "sl = show_loopback (config m)"
  define rows where "rows = map (classify_row sl) (drop 2 ls)"
  define R where "R = scan_rows ct d (drop 2 ls) (m, {}, g)"
  define m1 where "m1 = fst (fst R)"
  define named where "named = named_ids rows"
  have rows_eq: "scan_rows_of m ls = rows"
    by (simp add: scan_rows_of_def rows_def sl_def)
  have none: "snd R = None"
    using scan_rows_exception [of m sl ct d "drop 2 ls" "{}" g] ok
    by (simp add: R_def sl_def rows_eq rows_def)
  have found: "fst (snd (fst R)) = named"
    using scan_rows_found [of m sl ct d "drop 2 ls" "{}" g] none
    by (simp add: R_def sl_def named_def rows_def)
  obtain new where new: "id_names m1 = id_names m @ new"
    "collector m1 = veil_events d (collector m)
       (map (\<lambda>kn. spirit_message (snd kn) ''appeared'') new)"
    "fst ` set new = sampled_ids rows - fst ` set (entities m)"
    using scan_rows_id_names [of m sl ct d "drop 2 ls" "{}" g] none
    by (auto simp: R_def m1_def sl_def rows_def)
  have dist1: "distinct (tracked_ids m1)"
    using scan_rows_distinct [of m ct d "drop 2 ls" "{}" g] dist
    by (simp add: m1_def R_def tracked_ids_def)
  have new_named: "\<And>kn. kn \<in> set new \<Longrightarrow> fst kn \<in> named \<and> fst kn \<notin> set (tracked_ids m)"
    using new(3) sampled_subset_named [of rows]
    by (auto simp: named_def set_tracked_ids)
  have old_tracked: "\<And>kn. kn \<in> set (id_names m) \<Longrightarrow> fst kn \<in> set (tracked_ids m)"
    using set_tracked_id_names [of m] by auto
  define expired where "expired = expired_ids named m1"
  have exp_eq: "expired = filter (\<lambda>i. i \<notin> named) (map fst (id_names m1))"
    by (simp add: expired_def expired_ids_def tracked_ids_def)
  have exp_dist: "distinct expired" and exp_sub: "set expired \<subseteq> set (tracked_ids m1)"
    using dist1 by (auto simp: exp_eq)
  define m' where "m' = fade d expired m1"
  have res: "fst (scan_spirits (Inr ls) ct d m g) = m'"
    using none found
    by (simp add: scan_spirits_rows Let_def R_def [symmetric] m'_def m1_def expired_def)
  have fade1: "id_names m' = filter (\<lambda>kn. fst kn \<notin> set expired) (id_names m1)"
    and fade2: "collector m' = veil_events d (collector m1)
         (map (\<lambda>i. spirit_message (the (map_of (id_names m1) i)) ''faded'') expired)"
    using fade_id_names [OF exp_dist exp_sub, of d] by (simp_all add: m'_def)
  have in_exp: "\<And>kn. kn \<in> set (id_names m1) \<Longrightarrow> (fst kn \<in> set expired) = (fst kn \<notin> named)"
    using set_tracked_id_names [of m1] by (auto simp: exp_eq)
  have idn': "id_names m' = filter (\<lambda>kn. fst kn \<in> named) (id_names m) @ new"
  proof -
    have "id_names m' = filter (\<lambda>kn. fst kn \<in> named) (id_names m1)"
      unfolding fade1 using in_exp by (intro filter_cong) auto
    also have "\<dots> = filter (\<lambda>kn. fst kn \<in> named) (id_names m) @ filter (\<lambda>kn. fst kn \<in> named) new"
      by (simp add: new(1))
    also have "filter (\<lambda>kn. fst kn \<in> named) new = new"
      using new_named by (simp add: filter_id_conv)
    finally show ?thesis .
  qed
  have created: "filter (\<lambda>kn. fst kn \<notin> set (tracked_ids m)) (id_names m') = new"
  proof -
    have "filter (\<lambda>kn. fst kn \<notin> set (tracked_ids m)) (filter (\<lambda>kn. fst kn \<in> named) (id_names m)) = []"
      using old_tracked by (simp add: filter_empty_conv)
    moreover have "filter (\<lambda>kn. fst kn \<notin> set (tracked_ids m)) new = new"
      using new_named by (simp add: filter_id_conv)
    ultimately show ?thesis by (simp add: idn')
  qed
  have keys': "set (tracked_ids m') = {i \<in> set (tracked_ids m). i \<in> named} \<union> fst ` set new"
  proof -
    have "set (tracked_ids m') = fst ` set (id_names m')"
      by (simp add: set_tracked_id_names)
    also have "\<dots> = fst ` {kn \<in> set (id_names m). fst kn \<in> named} \<union> fst ` set new"
      by (simp add: idn' image_Un)
    also have "fst ` {kn \<in> set (id_names m). fst kn \<in> named} =
        {i \<in> fst ` set (id_names m). i \<in> named}"
      by force
    finally show ?thesis by (simp add: set_tracked_id_names)
  qed
  have removed: "filter (\<lambda>kn. fst kn \<notin> set (tracked_ids m')) (id_names m) =
      filter (\<lambda>kn. fst kn \<notin> named) (id_names m)"
    using old_tracked new_named unfolding keys' by (intro filter_cong) auto
  have faded_msgs: "map (\<lambda>i. spirit_message (the (map_of (id_names m1) i)) ''faded'') expired =
      map (\<lambda>kn. spirit_message (snd kn) ''faded'') (filter (\<lambda>kn. fst kn \<notin> named) (id_names m))"
  proof -
    have d1: "distinct (map fst (id_names m1))" using dist1 by simp
    have "map (\<lambda>i. spirit_message (the (map_of (id_names m1) i)) ''faded'') expired =
        map (\<lambda>kn. spirit_message (snd kn) ''faded'') (filter (\<lambda>kn. fst kn \<notin> named) (id_names m1))"
      unfolding exp_eq
      using map_the_map_of_filter [OF d1 subset_refl, of "\<lambda>n. spirit_message n ''faded''" "\<lambda>i. i \<notin> named"]
      by simp
    also have "filter (\<lambda>kn. fst kn \<notin> named) (id_names m1) = filter (\<lambda>kn. fst kn \<notin> named) (id_names m)"
      using new_named by (simp add: new(1) filter_empty_conv)
    finally show ?thesis .
  qed
  have c: "collector m' = veil_events d (collector m)
      (map (\<lambda>kn. spirit_message (snd kn) ''appeared'') new
       @ map (\<lambda>kn. spirit_message (snd kn) ''faded'') (filter (\<lambda>kn. fst kn \<notin> named) (id_names m)))"
    unfolding fade2 new(2) faded_msgs by (simp add: veil_events_append)
  have k: "set (tracked_ids m') = {i \<in> named. i \<in> sampled_ids rows \<or> i \<in> set (tracked_ids m)}"
    unfolding keys' new(3) using sampled_subset_named [of rows]
    by (auto simp: named_def set_tracked_ids)
  have dd: "distinct (tracked_ids m')"
  proof -
    have "distinct (map fst (id_names m1))" using dist1 by simp
    then have "distinct (map fst (filter (\<lambda>kn. fst kn \<notin> set expired) (id_names m1)))"
      by (rule distinct_map_filter)
    then show ?thesis using fade1 map_fst_id_names [of m'] by simp
  qed
  show ?thesis
    unfolding Let_def res rows_eq created removed
    using k dd c by (simp add: named_def)
qed


lemma scan_rows_append:
  "scan_rows ct d (xs @ ys) st =
     (case scan_rows ct d xs st of
        (st', Some e) \<Rightarrow> (st', Some e)
      | (st', None) \<Rightarrow> scan_rows ct d ys st')"
  by (induction xs arbitrary: st) (auto split: prod.splits option.splits)

lemma fade_other:
  "k \<notin> set ids \<Longrightarrow> map_of (entities (fade d ids m)) k = map_of (entities m) k"
  by (induction ids arbitrary: m) (auto split: option.splits)

lemma observe_entity:
  "map_of (entities (fst (observe ct d i rx tx m g))) i =
     Some (case map_of (entities m) i of
             Some e \<Rightarrow> fst (update_glyphs (sample_entity ct (last_update m) d rx tx e) g)
           | None \<Rightarrow> fst (update_glyphs
               (sample_entity ct (last_update m) d rx tx (fst (new_entity i i ct g)))
               (snd (new_entity i i ct g))))"
proof (cases "map_of (entities m) i")
  case None
  then show ?thesis
    by (simp add: observe_new [OF None] map_add_def)
next
  case (Some e)
  then show ?thesis
    by (simp add: observe_tracked [OF Some] AList.update_conv')
qed

lemma scan_rows_found_mono:
  "found \<subseteq> fst (snd (fst (scan_rows ct d ls (m, found, g))))"
proof (induction ls arbitrary: m found g)
  case Nil
  then show ?case by simp
next
  case (Cons l ls)
  show ?case
  proof (cases "classify_row (show_loopback (config m)) l")
    case (Sample i rx tx)
    then show ?thesis
      using Cons.IH [of "insert i found" "fst (observe ct d i rx tx m g)"
          "snd (observe ct d i rx tx m g)"]
      by (auto simp: scan_row_classify case_prod_beta)
  next
    case (Malformed i)
    then show ?thesis
      using Cons.IH [of "insert i found" m g] by (auto simp: scan_row_classify)
  qed (use Cons.IH in \<open>auto simp: scan_row_classify\<close>)
qed

text \<open>The entity of an id after a scan in which exactly one row samples it.\<close>

lemma scan_rows_single_sample:
  assumes sl: "show_loopback (config m) = sl"
    and rows: "map (classify_row sl) ls = pre @ Sample i rx tx # post"
    and pre: "i \<notin> sampled_ids pre" "\<forall>r \<in> set pre. \<not> is_unparsable r"
    and post: "i \<notin> sampled_ids post"
  shows "\<exists>g1. map_of (entities (fst (fst (scan_rows ct d ls (m, found, g))))) i =
     Some (case map_of (entities m) i of
             Some e \<Rightarrow> fst (update_glyphs (sample_entity ct (last_update m) d rx tx e) g1)
           | None \<Rightarrow> fst (update_glyphs
               (sample_entity ct (last_update m) d rx tx (fst (new_entity i i ct g1)))
               (snd (new_entity i i ct g1))))
    \<and> i \<in> fst (snd (fst (scan_rows ct d ls (m, found, g))))"
proof -
  obtain lpre l lpost where ls: "ls = lpre @ l # lpost"
    and lpre: "map (classify_row sl) lpre = pre"
    and l: "classify_row sl l = Sample i rx tx"
    and lpost: "map (classify_row sl) lpost = post"
    using rows by (auto simp: map_eq_append_conv map_eq_Cons_conv)
  define R1 where "R1 = scan_rows ct d lpre (m, found, g)"
  define m1 where "m1 = fst (fst R1)"
  define f1 where "f1 = fst (snd (fst R1))"
  define g1 where "g1 = snd (snd (fst R1))"
  have R1: "R1 = ((m1, f1, g1), None)"
  proof -
    have "snd R1 = None"
      using scan_rows_exception [OF sl, of ct d lpre found g] pre(2) lpre
      by (simp add: R1_def)
    then show ?thesis by (simp add: m1_def f1_def g1_def prod_eq_iff)
  qed
  have static1: "config m1 = config m" "last_update m1 = last_update m"
    using scan_rows_static [of ct d lpre m found g] by (simp_all add: m1_def R1_def)
  have ent1: "map_of (entities m1) i = map_of (entities m) i"
    using scan_rows_untouched [OF sl, of i lpre ct d found g] pre(1) lpre
    by (simp add: m1_def R1_def)
  define m2 where "m2 = fst (observe ct d i rx tx m1 g1)"
  define g2 where "g2 = snd (observe ct d i rx tx m1 g1)"
  have row: "scan_row ct d l (m1, f1, g1) = ((m2, insert i f1, g2), None)"
    using l static1 sl by (simp add: scan_row_classify case_prod_beta m2_def g2_def)
  have whole: "scan_rows ct d ls (m, found, g) = scan_rows ct d lpost (m2, insert i f1, g2)"
    using R1 row by (simp add: ls scan_rows_append R1_def [symmetric])
  have sl2: "show_loopback (config m2) = sl"
    using static1 sl by (simp add: m2_def)
  have ent2: "map_of (entities (fst (fst (scan_rows ct d lpost (m2, insert i f1, g2))))) i =
      map_of (entities m2) i"
    using scan_rows_untouched [OF sl2, of i lpost ct d "insert i f1" g2] post lpost by simp
  have fnd: "i \<in> fst (snd (fst (scan_rows ct d lpost (m2, insert i f1, g2))))"
    using scan_rows_found_mono [of "insert i f1" ct d lpost m2 g2] by auto
  show ?thesis
    apply (rule exI [of _ g1])
    unfolding whole ent2 using fnd
    by (simp add: m2_def observe_entity ent1 static1 cong: option.case_cong)
qed

lemma scan_spirits_single_sample:
  assumes rows: "scan_rows_of m ls = pre @ Sample i rx tx # post"
    and pre: "i \<notin> sampled_ids pre" "\<forall>r \<in> set pre. \<not> is_unparsable r"
    and post: "i \<notin> sampled_ids post"
  shows "\<exists>g1. map_of (entities (fst (scan_spirits (Inr ls) ct d m g))) i =
     Some (case map_of (entities m) i of
             Some e \<Rightarrow> fst (update_glyphs (sample_entity ct (last_update m) d rx tx e) g1)
           | None \<Rightarrow> fst (update_glyphs
               (sample_entity ct (last_update m) d rx tx (fst (new_entity i i ct g1)))
               (snd (new_entity i i ct g1))))"
proof -
  define R where "R = scan_rows ct d (drop 2 ls) (m, {}, g)"
  obtain g1 where g1: "map_of (entities (fst (fst R))) i =
     Some (case map_of (entities m) i of
             Some e \<Rightarrow> fst (update_glyphs (sample_entity ct (last_update m) d rx tx e) g1)
           | None \<Rightarrow> fst (update_glyphs
               (sample_entity ct (last_update m) d rx tx (fst (new_entity i i ct g1)))
               (snd (new_entity i i ct g1))))"
    and fnd: "i \<in> fst (snd (fst R))"
    using scan_rows_single_sample [OF refl, of m "drop 2 ls" pre i rx tx post ct d "{}" g]
      rows pre post
    by (auto simp: scan_rows_of_def R_def)
  have "map_of (entities (fst (scan_spirits (Inr ls) ct d m g))) i = map_of (entities (fst (fst R))) i"
  proof (cases "snd R")
    case None
    have "i \<notin> set (expired_ids (fst (snd (fst R))) (fst (fst R)))"
      using fnd by (simp add: expired_ids_def)
    then show ?thesis
      using None by (simp add: scan_spirits_rows R_def [symmetric] fade_other)
  next
    case (Some e)
    then show ?thesis
      by (simp add: scan_spirits_rows R_def [symmetric] scan_failed_def)
  qed
  then show ?thesis using g1 by auto
qed

lemma sample_entity_fields:
  "rx_rate (sample_entity ct lu d rx tx e) =
     (if ct - lu > 0 then real_of_int (rx - rx_bytes e) / (ct - lu) else rx_rate e)"
  "tx_rate (sample_entity ct lu d rx tx e) =
     (if ct - lu > 0 then real_of_int (tx - tx_bytes e) / (ct - lu) else tx_rate e)"
  "rx_bytes (sample_entity ct lu d rx tx e) = rx"
  "tx_bytes (sample_entity ct lu d rx tx e) = tx"
  "last_seen (sample_entity ct lu d rx tx e) = ct"
  by (simp_all add: sample_entity_def status_whisper_def add_whisper_def Let_def)

lemma update_glyphs_fields [simp]:
  "rx_rate (fst (update_glyphs e g)) = rx_rate e"
  "tx_rate (fst (update_glyphs e g)) = tx_rate e"
  "rx_bytes (fst (update_glyphs e g)) = rx_bytes e"
  "tx_bytes (fst (update_glyphs e g)) = tx_bytes e"
  "last_seen (fst (update_glyphs e g)) = last_seen e"
  "essence (fst (update_glyphs e g)) = essence e"
  by (simp_all add: update_glyphs_def case_prod_beta)

lemma new_entity_fields [simp]:
  "rx_rate (fst (new_entity n i t g)) = 0"
  "tx_rate (fst (new_entity n i t g)) = 0"
  "rx_bytes (fst (new_entity n i t g)) = 0"
  "tx_bytes (fst (new_entity n i t g)) = 0"
  by (simp_all add: new_entity_def case_prod_beta)

text \<open>
  Claim C1, as the code has it.  Let a tracked entity be sampled by exactly one row of a
  scan, with no unparsable row before it.  The elapsed time of the code is
  \<open>dt = current_time - last_update\<close>, measured from the monitor's attribute
  \<^verbatim>\<open>self.last_update\<close> (the time of the previous sample cycle of the loop, one value for
  all entities), not from the entity's own \<^verbatim>\<open>last_seen\<close>.  If \<open>dt\<close> is positive the scan
  sets \<open>rx_rate = (rx - old rx_bytes) / dt\<close> and \<open>tx_rate = (tx - old tx_bytes) / dt\<close>;
  otherwise both rates keep their values.  In both cases the raw counters become the
  sampled ones and \<^verbatim>\<open>last_seen\<close> becomes the scan's time.
\<close>

theorem scan_rates:
  assumes tracked: "map_of (entities m) i = Some e"
    and rows: "scan_rows_of m ls = pre @ Sample i rx tx # post"
    and pre: "i \<notin> sampled_ids pre" "\<forall>r \<in> set pre. \<not> is_unparsable r"
    and post: "i \<notin> sampled_ids post"
  shows "\<exists>e'. map_of (entities (fst (scan_spirits (Inr ls) ct d m g))) i = Some e'
    \<and> rx_rate e' = (if ct - last_update m > 0
                     then real_of_int (rx - rx_bytes e) / (ct - last_update m) else rx_rate e)
    \<and> tx_rate e' = (if ct - last_update m > 0
                     then real_of_int (tx - tx_bytes e) / (ct - last_update m) else tx_rate e)
    \<and> rx_bytes e' = rx \<and> tx_bytes e' = tx \<and> last_seen e' = ct"
  using scan_spirits_single_sample [OF rows pre post, of ct d g] tracked
  by (auto simp: sample_entity_fields)

text \<open>
  Claim C5, as the code has it.  An id that is not tracked and is sampled by exactly one
  row of a scan gets an entity whose rates are derived in that same scan, from the zero
  counters of the new entity: with \<open>dt = current_time - last_update\<close> positive,
  \<open>rx_rate = rx / dt\<close> and \<open>tx_rate = tx / dt\<close>; only for \<open>dt\<close> not positive do the rates
  stay at their initial zero.
\<close>

theorem first_sample_rates:
  assumes untracked: "map_of (entities m) i = None"
    and rows: "scan_rows_of m ls = pre @ Sample i rx tx # post"
    and pre: "i \<notin> sampled_ids pre" "\<forall>r \<in> set pre. \<not> is_unparsable r"
    and post: "i \<notin> sampled_ids post"
  shows "\<exists>e'. map_of (entities (fst (scan_spirits (Inr ls) ct d m g))) i = Some e'
    \<and> rx_rate e' = (if ct - last_update m > 0 then real_of_int rx / (ct - last_update m) else 0)
    \<and> tx_rate e' = (if ct - last_update m > 0 then real_of_int tx / (ct - last_update m) else 0)
    \<and> rx_bytes e' = rx \<and> tx_bytes e' = tx \<and> last_seen e' = ct"
  using scan_spirits_single_sample [OF rows pre post, of ct d g] untracked
  by (auto simp: sample_entity_fields)

lemma scan_unsampled_named:
  assumes tracked: "map_of (entities m) i = Some e"
    and named: "i \<in> named_ids (scan_rows_of m ls)"
    and nosample: "i \<notin> sampled_ids (scan_rows_of m ls)"
  shows "map_of (entities (fst (scan_spirits (Inr ls) ct d m g))) i = Some e"
proof -
  define R where "R = scan_rows ct d (drop 2 ls) (m, {}, g)"
  have same: "map_of (entities (fst (fst R))) i = map_of (entities m) i"
    using scan_rows_untouched [OF refl, of i m "drop 2 ls" ct d "{}" g] nosample
    by (simp add: R_def scan_rows_of_def)
  show ?thesis
  proof (cases "snd R")
    case None
    have "fst (snd (fst R)) = named_ids (scan_rows_of m ls)"
      using scan_rows_found [OF refl, of ct d "drop 2 ls" m "{}" g] None
      by (simp add: R_def scan_rows_of_def)
    with named have "i \<notin> set (expired_ids (fst (snd (fst R))) (fst (fst R)))"
      by (simp add: expired_ids_def)
    then show ?thesis
      using None same tracked by (simp add: scan_spirits_rows R_def [symmetric] fade_other)
  next
    case (Some ex)
    then show ?thesis
      using same tracked by (simp add: scan_spirits_rows R_def [symmetric] scan_failed_def)
  qed
qed

lemma perform_rituals_static [simp]:
  "entities (fst (perform_rituals h t d m g)) = entities m"
  "config (fst (perform_rituals h t d m g)) = config m"
  "last_update (fst (perform_rituals h t d m g)) = last_update m"
  "colors (fst (perform_rituals h t d m g)) = colors m"
  "running (fst (perform_rituals h t d m g)) = running m"
  by (simp_all add: perform_rituals_def case_prod_beta)

lemma scan_failed_static [simp]:
  "entities (scan_failed d e m) = entities m"
  "config (scan_failed d e m) = config m"
  "last_update (scan_failed d e m) = last_update m"
  "colors (scan_failed d e m) = colors m"
  "running (scan_failed d e m) = running m"
  by (simp_all add: scan_failed_def)

lemma scan_spirits_static [simp]:
  "config (fst (scan_spirits src ct d m g)) = config m"
  "last_update (fst (scan_spirits src ct d m g)) = last_update m"
  "colors (fst (scan_spirits src ct d m g)) = colors m"
  "running (fst (scan_spirits src ct d m g)) = running m"
proof -
  have "config (fst (scan_spirits src ct d m g)) = config m
    \<and> last_update (fst (scan_spirits src ct d m g)) = last_update m
    \<and> colors (fst (scan_spirits src ct d m g)) = colors m
    \<and> running (fst (scan_spirits src ct d m g)) = running m"
  proof (cases src)
    case (Inl e)
    then show ?thesis by (simp add: scan_spirits_def)
  next
    case (Inr ls)
    show ?thesis
      using scan_rows_static [of ct d "drop 2 ls" m "{}" g]
      by (cases "snd (scan_rows ct d (drop 2 ls) (m, {}, g))")
        (simp_all add: Inr scan_spirits_rows Let_def)
  qed
  then show "config (fst (scan_spirits src ct d m g)) = config m"
    "last_update (fst (scan_spirits src ct d m g)) = last_update m"
    "colors (fst (scan_spirits src ct d m g)) = colors m"
    "running (fst (scan_spirits src ct d m g)) = running m"
    by simp_all
qed

lemma last_collector_add_whisper:
  "last (collector_add_whisper d src msg level ws) =
     ''['' @ strftime_Ymd_HMS d @ ''] ['' @ level @ ''] '' @ src @ '': '' @ msg"
  by (simp add: collector_add_whisper_def Let_def)

lemma scan_unreadable_entities [simp]:
  "entities (fst (scan_spirits (Inl e) ct d m g)) = entities m"
  by (simp add: scan_spirits_def)

text \<open>
  Claim C9.  When the counter source cannot be read, \<^verbatim>\<open>scan_spirits\<close> returns normally:
  the entity map is the one it was, and the last message of the collector is the
  \<^verbatim>\<open>ERROR\<close> report of the scanner.  A sample cycle of the loop whose read fails leaves
  the entity map, the configuration and the \<^verbatim>\<open>running\<close> flag as they were, so the loop
  goes on to its next pass.
\<close>

theorem scan_read_failure:
  "entities (fst (scan_spirits (Inl e) ct d m g)) = entities m
   \<and> last (collector (fst (scan_spirits (Inl e) ct d m g))) =
       ''['' @ strftime_Ymd_HMS d @ ''] [ERROR] Scanner: Failed to scan: '' @ exc_str e
   \<and> (source t = Inl e \<longrightarrow>
        entities (fst (sample_cycle h t (m, scr, g))) = entities m
        \<and> running (fst (sample_cycle h t (m, scr, g))) = running m
        \<and> config (fst (sample_cycle h t (m, scr, g))) = config m)"
proof -
  have a: "entities (fst (scan_spirits (Inl e) ct d m g)) = entities m"
    by (simp add: scan_spirits_def)
  have b: "last (collector (fst (scan_spirits (Inl e) ct d m g))) =
       ''['' @ strftime_Ymd_HMS d @ ''] [ERROR] Scanner: Failed to scan: '' @ exc_str e"
    by (simp add: scan_spirits_def scan_failed_def last_collector_add_whisper)
  have c: "source t = Inl e \<Longrightarrow>
        entities (fst (sample_cycle h t (m, scr, g))) = entities m
        \<and> running (fst (sample_cycle h t (m, scr, g))) = running m
        \<and> config (fst (sample_cycle h t (m, scr, g))) = config m"
    by (simp add: sample_cycle_def case_prod_beta split: option.splits)
  show ?thesis using a b c by blast
qed

subsection \<open>The scan at the example values\<close>

lemmas parse_eval = scan_rows_of_def classify_row_def strip_def is_space_def split_ws_def
  py_int_def int_unsigned_def is_digit_def digit_val_def Let_def

lemmas example_eval = rows_eth0_def rows_eth0_later_def rows_eth0_short_def rows_wlan0_short_def
  example_header_def example_monitor_def start_ritual_def init_colors_def new_mystic_def
  default_config_def

lemma example_monitor_fields:
  "entities example_monitor = []"
  "last_update example_monitor = 0"
  "config example_monitor = default_config"
  "running example_monitor = True"
  by (simp_all add: example_monitor_def start_ritual_def init_colors_def new_mystic_def Let_def)

lemma example_rows:
  "scan_rows_of example_monitor rows_eth0 = [] @ Sample ''eth0'' 1000 500 # []"
  "scan_rows_of example_monitor rows_eth0_later = [] @ Sample ''eth0'' 3000 2500 # []"
  "scan_rows_of example_monitor rows_eth0_short = [Malformed ''eth0'']"
  "scan_rows_of example_monitor rows_wlan0_short = [Sample ''eth0'' 3000 2500, Malformed ''wlan0'']"
  by (simp_all add: parse_eval example_eval)

lemma scan_rows_of_config: "config m = config m' \<Longrightarrow> scan_rows_of m ls = scan_rows_of m' ls"
  by (simp add: scan_rows_of_def)

lemma example_tracked_fields:
  "last_update example_tracked = 10"
  "config example_tracked = default_config"
  "running example_tracked = True"
  by (simp_all add: example_tracked_def example_monitor_fields)

lemma example_tracked_rows: "scan_rows_of example_tracked ls = scan_rows_of example_monitor ls"
  by (rule scan_rows_of_config) (simp add: example_tracked_fields example_monitor_fields)

lemma example_tracked_eth0:
  "\<exists>e. map_of (entities example_tracked) ''eth0'' = Some e \<and> rx_bytes e = 1000
     \<and> tx_bytes e = 500 \<and> rx_rate e = 100 \<and> tx_rate e = 50 \<and> last_seen e = 10"
proof -
  have a: "map_of (entities example_monitor) ''eth0'' = None"
    by (simp add: example_monitor_fields)
  obtain g1 where "map_of (entities (fst (scan_spirits (Inr rows_eth0) 10 example_clock
      example_monitor example_tape))) ''eth0'' =
     Some (fst (update_glyphs
               (sample_entity 10 (last_update example_monitor) example_clock 1000 500
                 (fst (new_entity ''eth0'' ''eth0'' 10 g1)))
               (snd (new_entity ''eth0'' ''eth0'' 10 g1))))"
    using scan_spirits_single_sample [OF example_rows(1), where ct = 10 and d = example_clock
        and g = example_tape] a
    by auto
  then show ?thesis
    by (simp add: example_tracked_def sample_entity_fields example_monitor_fields)
qed




theorem first_sample_rates_witness:
  "\<exists>e'. map_of (entities (fst (scan_spirits (Inr rows_eth0) 10 example_clock
        example_monitor example_tape))) ''eth0'' = Some e'
    \<and> rx_rate e' = 100 \<and> tx_rate e' = 50 \<and> rx_bytes e' = 1000 \<and> tx_bytes e' = 500
    \<and> last_seen e' = 10"
proof -
  have a: "map_of (entities example_monitor) ''eth0'' = None"
    by (simp add: example_monitor_fields)
  show ?thesis
    using first_sample_rates [OF a example_rows(1), where ct = 10 and d = example_clock
        and g = example_tape]
    by (simp add: example_monitor_fields)
qed

theorem first_sample_rates_counterexample:
  "map_of (entities example_monitor) ''eth0'' = None
   \<and> rx_rate (the (map_of (entities example_tracked) ''eth0'')) = 100
   \<and> tx_rate (the (map_of (entities example_tracked) ''eth0'')) = 50"
  using example_tracked_eth0 by (auto simp: example_monitor_fields)

text \<open>
  Claim C10, as the code has it.  Let an id be tracked, let a row of the scan name it with
  fewer than 16 fields and pass the loopback filter (the row is classified \<open>Malformed\<close>:
  its name is not \<^verbatim>\<open>lo\<close>, or the loopback is shown), and let no row of the scan sample the
  id.  Then after the scan the id is still tracked and its entity is the one it was:
  counters, rates, \<^verbatim>\<open>last_seen\<close>, messages and glyphs are unchanged.  A short row for
  \<^verbatim>\<open>lo\<close> while the loopback is hidden is skipped before the id is counted as present, so it
  does not keep a tracked \<^verbatim>\<open>lo\<close>, which the scan then removes.
\<close>

theorem scan_malformed_row:
  assumes tracked: "map_of (entities m) i = Some e"
    and row: "Malformed i \<in> set (scan_rows_of m ls)"
    and nosample: "i \<notin> sampled_ids (scan_rows_of m ls)"
  shows "map_of (entities (fst (scan_spirits (Inr ls) ct d m g))) i = Some e"
proof -
  have "i \<in> named_ids (scan_rows_of m ls)"
    using row by (force simp: named_ids_def)
  with tracked show ?thesis
    using nosample by (rule scan_unsampled_named)
qed

theorem scan_malformed_row_witness:
  "map_of (entities (fst (scan_spirits (Inr rows_eth0_short) 11 example_clock example_tracked
      example_tape))) ''eth0'' = map_of (entities example_tracked) ''eth0''
   \<and> map_of (entities example_tracked) ''eth0'' \<noteq> None"
proof -
  obtain e where e: "map_of (entities example_tracked) ''eth0'' = Some e"
    using example_tracked_eth0 by blast
  show ?thesis
    using scan_malformed_row [OF e, where ls = rows_eth0_short and ct = 11
        and d = example_clock and g = example_tape] e
    by (simp add: example_tracked_rows example_rows)
qed

text \<open>
  The monitor that sampled \<^verbatim>\<open>eth0\<close> at time 10 samples it again: at time 12 the rates are
  the differences over 2 seconds, at time 10 (no time elapsed) they stay as they were.
\<close>

theorem scan_rates_witness:
  "(\<exists>e'. map_of (entities (fst (scan_spirits (Inr rows_eth0_later) 12 example_clock
        example_tracked example_tape))) ''eth0'' = Some e'
    \<and> rx_rate e' = 1000 \<and> tx_rate e' = 1000 \<and> rx_bytes e' = 3000 \<and> tx_bytes e' = 2500
    \<and> last_seen e' = 12)
   \<and> (\<exists>e'. map_of (entities (fst (scan_spirits (Inr rows_eth0_later) 10 example_clock
        example_tracked example_tape))) ''eth0'' = Some e'
    \<and> rx_rate e' = 100 \<and> tx_rate e' = 50 \<and> rx_bytes e' = 3000 \<and> tx_bytes e' = 2500
    \<and> last_seen e' = 10)"
proof -
  obtain e where e: "map_of (entities example_tracked) ''eth0'' = Some e"
    "rx_bytes e = 1000" "tx_bytes e = 500" "rx_rate e = 100" "tx_rate e = 50"
    using example_tracked_eth0 by blast
  have r: "scan_rows_of example_tracked rows_eth0_later = [] @ Sample ''eth0'' 3000 2500 # []"
    by (simp add: example_tracked_rows example_rows)
  show ?thesis
    using scan_rates [OF e(1) r, where ct = 12 and d = example_clock and g = example_tape]
      scan_rates [OF e(1) r, where ct = 10 and d = example_clock and g = example_tape] e
    by (simp add: example_tracked_fields)
qed

theorem scan_read_failure_witness:
  "entities (fst (sample_cycle example_host (example_tick 11 (Inl (OSError ''gone'')))
      (example_tracked, example_screen 5 10, example_tape))) = entities example_tracked
   \<and> last (collector (fst (scan_spirits (Inl (OSError ''gone'')) 11 example_clock
        example_tracked example_tape))) =
       ''['' @ strftime_Ymd_HMS example_clock @ ''] [ERROR] Scanner: Failed to scan: gone''"
  using scan_read_failure [where e = "OSError ''gone''" and ct = 11 and d = example_clock
      and m = example_tracked and g = example_tape
      and t = "example_tick 11 (Inl (OSError ''gone''))" and h = example_host
      and scr = "example_screen 5 10"]
  by (simp add: example_tick_def)

subsection \<open>A short row behind the loopback filter\<close>

lemma singleton_list: "set xs = {a} \<Longrightarrow> distinct xs \<Longrightarrow> xs = [a]"
proof -
  assume s: "set xs = {a}" and d: "distinct xs"
  have "length xs = card (set xs)" using d by (simp add: distinct_card)
  then have "length xs = 1" by (simp add: s)
  then obtain b where "xs = [b]" by (cases xs) auto
  then show ?thesis using s by simp
qed

lemma handle_key_loopback:
  "key t = 108 \<Longrightarrow> entities (fst (handle_key h t m g)) = entities m
     \<and> show_loopback (config (fst (handle_key h t m g))) = (\<not> show_loopback (config m))"
  by (simp add: handle_key_def info_whisper_def Let_def)

lemma example_loopback_config:
  "show_loopback (config example_loopback_shown)"
  "\<not> show_loopback (config example_loopback_hidden)"
  "entities example_loopback_shown = []"
  "entities example_loopback_hidden = entities example_loopback_tracked"
proof -
  show s: "show_loopback (config example_loopback_shown)"
    unfolding example_loopback_shown_def
    by (simp add: handle_key_loopback example_key_def example_monitor_fields default_config_def)
  show "\<not> show_loopback (config example_loopback_hidden)"
    unfolding example_loopback_hidden_def
    by (simp add: handle_key_loopback example_key_def example_loopback_tracked_def s)
  show "entities example_loopback_shown = []"
    by (simp add: example_loopback_shown_def handle_key_loopback example_key_def
        example_monitor_fields)
  show "entities example_loopback_hidden = entities example_loopback_tracked"
    by (simp add: example_loopback_hidden_def handle_key_loopback example_key_def)
qed

lemma example_loopback_rows:
  "scan_rows_of example_loopback_shown rows_lo = [] @ Sample ''lo'' 1000 1000 # []"
  "scan_rows_of example_loopback_hidden rows_lo_short = [Skipped]"
  "scan_rows_of example_loopback_shown rows_lo_short = [Malformed ''lo'']"
  using example_loopback_config(1, 2)
  by (simp_all add: parse_eval rows_lo_def rows_lo_short_def example_header_def)

lemma example_loopback_ids: "tracked_ids example_loopback_hidden = [''lo'']"
proof -
  have d0: "distinct (tracked_ids example_loopback_shown)"
    by (simp add: tracked_ids_def example_loopback_config)
  have "set (tracked_ids example_loopback_tracked) = {''lo''}
      \<and> distinct (tracked_ids example_loopback_tracked)"
    using scan_spirits_complete [OF d0, where ls = rows_lo and ct = 10
        and d = example_clock and g = example_tape]
    by (auto simp: Let_def example_loopback_rows tracked_ids_def example_loopback_config
        example_loopback_tracked_def)
  then have "set (tracked_ids example_loopback_hidden) = {''lo''}"
    "distinct (tracked_ids example_loopback_hidden)"
    by (simp_all add: tracked_ids_def example_loopback_config)
  then show ?thesis by (rule singleton_list)
qed

text \<open>
  The row \<^verbatim>\<open>lo: 3000 9 0\<close> has a name, a colon and three fields, and \<^verbatim>\<open>lo\<close> is tracked; the
  scan removes \<^verbatim>\<open>lo\<close> and reports that it has faded.
\<close>

theorem scan_malformed_row_counterexample:
  "tracked_ids example_loopback_hidden = [''lo'']
   \<and> \<not> show_loopback (config example_loopback_hidden)
   \<and> split_on CHR '':'' (last rows_lo_short) = [''    lo'', '' 3000 9 0'']
   \<and> split_ws '' 3000 9 0'' = [''3000'', ''9'', ''0'']
   \<and> tracked_ids (fst (scan_spirits (Inr rows_lo_short) 11 example_clock
        example_loopback_hidden example_tape)) = []
   \<and> collector (fst (scan_spirits (Inr rows_lo_short) 11 example_clock
        example_loopback_hidden example_tape)) =
       veil_events example_clock (collector example_loopback_hidden)
         [spirit_message (name (the (map_of (entities example_loopback_hidden) ''lo'')))
            ''faded'']"
proof -
  define m' where "m' = fst (scan_spirits (Inr rows_lo_short) 11 example_clock
        example_loopback_hidden example_tape)"
  note t = example_loopback_ids
  have dh: "distinct (tracked_ids example_loopback_hidden)"
    using t by simp
  obtain e where e: "entities example_loopback_hidden = [(''lo'', e)]"
    using t by (cases "entities example_loopback_hidden") (auto simp: tracked_ids_def)
  have idn: "id_names example_loopback_hidden = [(''lo'', name e)]"
    by (simp add: id_names_def e)
  have k: "set (tracked_ids m') = {}
      \<and> collector m' = veil_events example_clock (collector example_loopback_hidden)
         (map (\<lambda>kn. spirit_message (snd kn) ''appeared'')
            (filter (\<lambda>kn. fst kn \<notin> set (tracked_ids example_loopback_hidden)) (id_names m'))
          @ map (\<lambda>kn. spirit_message (snd kn) ''faded'')
            (filter (\<lambda>kn. fst kn \<notin> set (tracked_ids m')) (id_names example_loopback_hidden)))"
    using scan_spirits_complete [OF dh, where ls = rows_lo_short and ct = 11
        and d = example_clock and g = example_tape]
    by (simp add: Let_def example_loopback_rows m'_def [symmetric])
  then have k2: "tracked_ids m' = []" by simp
  then have "id_names m' = []"
    by (metis map_fst_id_names map_is_Nil_conv)
  then have c: "collector m' = veil_events example_clock (collector example_loopback_hidden)
         [spirit_message (name e) ''faded'']"
    using k by (simp add: k2 idn)
  have p: "split_on CHR '':'' (last rows_lo_short) = [''    lo'', '' 3000 9 0'']"
    by (simp add: rows_lo_short_def example_header_def)
  have q: "split_ws '' 3000 9 0'' = [''3000'', ''9'', ''0'']"
    by (simp add: split_ws_def is_space_def)
  show ?thesis
    unfolding m'_def [symmetric]
    using t k2 c p q example_loopback_config(2) by (simp add: e)
qed

section \<open>Properties of the renderer\<close>

subsection \<open>Drawing steps\<close>

lemma same_grid_refl [simp]: "same_grid scr scr"
  by (simp add: same_grid_def)

lemma same_grid_trans: "same_grid a b \<Longrightarrow> same_grid b c \<Longrightarrow> same_grid a c"
  by (simp add: same_grid_def)

lemma same_grid_cells [simp]: "same_grid scr (scr\<lparr>cells := cs\<rparr>)"
  by (simp add: same_grid_def)

lemma keeps_gridD: "keeps_grid f \<Longrightarrow> same_grid scr (fst (f scr))"
  by (simp add: keeps_grid_def)

lemma never_raisesD: "never_raises f \<Longrightarrow> snd (f scr) = None"
  by (simp add: never_raises_def)

lemma keeps_addstr [draw_intros]: "keeps_grid (addstr y x s a)"
  by (simp add: keeps_grid_def addstr_def same_grid_def)

lemma keeps_skip [draw_intros]: "keeps_grid skip"
  by (simp add: keeps_grid_def skip_def)

lemma keeps_raise [draw_intros]: "keeps_grid (raise e)"
  by (simp add: keeps_grid_def raise_def)

lemma keeps_then [draw_intros]: "keeps_grid f \<Longrightarrow> keeps_grid k \<Longrightarrow> keeps_grid (then_draw f k)"
proof -
  assume f: "keeps_grid f" and k: "keeps_grid k"
  show ?thesis
    unfolding keeps_grid_def
  proof
    fix scr
    obtain s1 r where fr: "f scr = (s1, r)" by (cases "f scr")
    have g1: "same_grid scr s1" using keeps_gridD [OF f, of scr] by (simp add: fr)
    show "same_grid scr (fst (then_draw f k scr))"
    proof (cases r)
      case None
      then show ?thesis
        using same_grid_trans [OF g1 keeps_gridD [OF k, of s1]] by (simp add: then_draw_def fr)
    next
      case (Some e)
      then show ?thesis using g1 by (simp add: then_draw_def fr)
    qed
  qed
qed

lemma keeps_try_pass [draw_intros]: "keeps_grid f \<Longrightarrow> keeps_grid (try_pass f)"
  by (simp add: keeps_grid_def try_pass_def)

lemma keeps_try_curses [draw_intros]: "keeps_grid f \<Longrightarrow> keeps_grid (try_curses f)"
proof -
  assume f: "keeps_grid f"
  show ?thesis
    unfolding keeps_grid_def
  proof
    fix scr
    have "fst (try_curses f scr) = fst (f scr)"
      by (simp add: try_curses_def split: prod.splits option.splits exc.splits)
    then show "same_grid scr (fst (try_curses f scr))"
      using keeps_gridD [OF f, of scr] by simp
  qed
qed

lemma keeps_with_attr [draw_intros]: "(\<And>a. keeps_grid (f a)) \<Longrightarrow> keeps_grid (with_attr r f)"
  by (cases r) (simp_all add: with_attr_def keeps_raise)

lemma keeps_draw_each [draw_intros]: "(\<And>x. keeps_grid (f x)) \<Longrightarrow> keeps_grid (draw_each f xs)"
  by (induction xs) (simp_all add: keeps_skip keeps_then)

lemma never_skip [draw_intros]: "never_raises skip"
  by (simp add: never_raises_def skip_def)

lemma never_try_pass [draw_intros]: "never_raises (try_pass f)"
  by (simp add: never_raises_def try_pass_def)

lemma never_then [draw_intros]: "never_raises f \<Longrightarrow> never_raises k \<Longrightarrow> never_raises (then_draw f k)"
proof -
  assume f: "never_raises f" and k: "never_raises k"
  show ?thesis
    unfolding never_raises_def
  proof
    fix scr
    obtain s1 r where fr: "f scr = (s1, r)" by (cases "f scr")
    have "r = None" using never_raisesD [OF f, of scr] by (simp add: fr)
    then show "snd (then_draw f k scr) = None"
      using never_raisesD [OF k, of s1] by (simp add: then_draw_def fr)
  qed
qed

lemma never_draw_each [draw_intros]: "(\<And>x. never_raises (f x)) \<Longrightarrow> never_raises (draw_each f xs)"
  by (induction xs) (simp_all add: never_skip never_then)

lemma only_curses_addstr: "only_curses (addstr y x s a)"
  by (simp add: only_curses_def addstr_def)

lemma only_curses_never: "never_raises f \<Longrightarrow> only_curses f"
  by (simp add: only_curses_def never_raises_def)

lemma only_curses_then: "only_curses f \<Longrightarrow> only_curses k \<Longrightarrow> only_curses (then_draw f k)"
proof -
  assume f: "only_curses f" and k: "only_curses k"
  show ?thesis
    unfolding only_curses_def
  proof
    fix scr
    obtain s1 r where fr: "f scr = (s1, r)" by (cases "f scr")
    have r: "is_curses_error r" using f by (metis only_curses_def snd_conv fr)
    show "is_curses_error (snd (then_draw f k scr))"
    proof (cases r)
      case None
      then show ?thesis using k by (simp add: then_draw_def fr only_curses_def)
    next
      case (Some e)
      then show ?thesis using r by (simp add: then_draw_def fr)
    qed
  qed
qed

lemma never_try_curses: "only_curses f \<Longrightarrow> never_raises (try_curses f)"
  unfolding only_curses_def never_raises_def try_curses_def
proof
  fix scr
  assume a: "\<forall>scr. is_curses_error (snd (f scr))"
  obtain s r where fr: "f scr = (s, r)" by (cases "f scr")
  with a have "is_curses_error r" by (metis snd_conv)
  then show "snd (case f scr of (scr1, None) \<Rightarrow> (scr1, None)
       | (scr1, Some (OSError list)) \<Rightarrow> (scr1, Some (OSError list))
       | (scr1, Some (ValueError list)) \<Rightarrow> (scr1, Some (ValueError list))
       | (scr1, Some (KeyError list)) \<Rightarrow> (scr1, Some (KeyError list))
       | (scr1, Some (CursesError msg)) \<Rightarrow> (scr1, None)) = None"
    unfolding fr by (cases r rule: is_curses_error.cases) simp_all
qed


subsection \<open>Every part of the frame keeps the grid\<close>

lemma keeps_if [draw_intros]:
  "keeps_grid f \<Longrightarrow> keeps_grid k \<Longrightarrow> keeps_grid (if c then f else k)"
  by simp

lemma never_if [draw_intros]:
  "never_raises f \<Longrightarrow> never_raises k \<Longrightarrow> never_raises (if c then f else k)"
  by simp

lemma keeps_border_row [draw_intros]: "keeps_grid (border_row h w y)"
  unfolding border_row_def by (intro draw_intros)


lemma keeps_draw_title [draw_intros]: "keeps_grid (draw_title m w)"
  unfolding draw_title_def Let_def by (intro draw_intros)

lemma keeps_draw_time [draw_intros]: "keeps_grid (draw_time d w)"
  unfolding draw_time_def Let_def by (intro draw_intros)

lemma keeps_render_glyph [draw_intros]: "keeps_grid (render_glyph m gl ox oy)"
  unfolding keeps_grid_def
proof
  fix scr
  show "same_grid scr (fst (render_glyph m gl ox oy scr))"
    using keeps_gridD [OF keeps_try_pass [OF keeps_addstr], of scr]
    by (simp add: render_glyph_def Let_def skip_def case_prod_beta)
qed

lemma keeps_flow_cell [draw_intros]: "keeps_grid (flow_cell m c x y i)"
  unfolding flow_cell_def by (intro draw_intros)

lemma keeps_render_flow [draw_intros]: "keeps_grid (render_flow_visualization m rx tx x y)"
  unfolding render_flow_visualization_def Let_def by (intro draw_intros)

lemma same_grid_entity_whispers:
  "same_grid scr (fst (draw_entity_whispers ws y scr))"
proof (induction ws arbitrary: y scr)
  case Nil
  then show ?case by simp
next
  case (Cons w ws)
  define ltext where "ltext = [0x2502, 0x20, 0x20] @ ustr w"
  obtain s1 r where a: "addstr y 2 ltext A_DIM scr = (s1, r)"
    by (cases "addstr y 2 ltext A_DIM scr")
  have g1: "same_grid scr s1"
    using keeps_gridD [OF keeps_addstr, of scr y 2 ltext A_DIM] by (simp add: a)
  have "same_grid scr (fst (draw_entity_whispers ws (y + 1) s1))"
    "same_grid scr (fst (draw_entity_whispers ws y s1))"
    "same_grid scr (fst (draw_entity_whispers ws y scr))"
    using same_grid_trans [OF g1 Cons.IH [of s1 "y + 1"]]
      same_grid_trans [OF g1 Cons.IH [of s1 y]] Cons.IH [of scr y]
    by simp_all
  then show ?case
    unfolding draw_entity_whispers.simps ltext_def [symmetric] a
    by (cases r) simp_all
qed

lemma keeps_block_tail [draw_intros]: "keeps_grid (block_tail m e y)"
  unfolding keeps_grid_def
proof
  fix scr
  obtain s1 wy where w: "draw_entity_whispers (last_n 2 (whispers e)) (y + 6) scr = (s1, wy)"
    by (cases "draw_entity_whispers (last_n 2 (whispers e)) (y + 6) scr")
  have g1: "same_grid scr s1"
    using same_grid_entity_whispers [of scr "last_n 2 (whispers e)" "y + 6"] by (simp add: w)
  have "keeps_grid (then_draw
            (try_pass (addstr wy 2 ([0x2570] @ replicate (nat (COLS s1 - 4)) 0x2500) A_NORMAL))
            (draw_each (\<lambda>glyph. render_glyph m glyph 25 (y - 4)) (glyphs e)))"
    by (intro draw_intros)
  then show "same_grid scr (fst (block_tail m e y scr))"
    using same_grid_trans [OF g1] by (simp add: block_tail_def w keeps_grid_def)
qed

lemma keeps_draw_spirit_info [draw_intros]: "keeps_grid (draw_spirit_info h m e y)"
  unfolding draw_spirit_info_def Let_def by (intro draw_intros)


lemma keeps_draw_spirits [draw_intros]: "keeps_grid (draw_spirits h m hgt y sps)"
proof (induction sps arbitrary: y)
  case Nil
  then show ?case by (simp add: keeps_skip)
next
  case (Cons sp sps)
  show ?case
    unfolding draw_spirits.simps
    by (intro keeps_if keeps_then keeps_draw_spirit_info Cons.IH)
qed

lemma keeps_draw_status_bar [draw_intros]: "keeps_grid (draw_status_bar h m d hgt wid)"
  unfolding draw_status_bar_def Let_def by (intro draw_intros)

lemma keeps_panel_line [draw_intros]: "keeps_grid (panel_line hgt px pw iw)"
  unfolding panel_line_def case_prod_beta by (intro draw_intros)

lemma keeps_draw_whispers_panel [draw_intros]: "keeps_grid (draw_whispers_panel m hgt wid)"
  unfolding draw_whispers_panel_def Let_def by (intro draw_intros)

subsection \<open>No part of the frame raises once the colours are set\<close>

lemma never_border_row [draw_intros]: "never_raises (border_row h w y)"
  unfolding border_row_def by (intro draw_intros)

lemma never_border_row_guarded [draw_intros]: "never_raises (border_row_guarded h w y)"
  unfolding border_row_guarded_def by (intro draw_intros)

lemma never_draw_title [draw_intros]: "never_raises (draw_title m w)"
  unfolding draw_title_def Let_def by (intro draw_intros)

lemma never_draw_time [draw_intros]: "never_raises (draw_time d w)"
  unfolding draw_time_def Let_def by (intro draw_intros)

lemma never_render_glyph [draw_intros]: "never_raises (render_glyph m gl ox oy)"
  by (simp add: never_raises_def render_glyph_def Let_def skip_def try_pass_def case_prod_beta)

lemma never_flow_cell [draw_intros]: "never_raises (flow_cell m c x y i)"
  unfolding flow_cell_def by (intro draw_intros)

lemma never_render_flow [draw_intros]: "never_raises (render_flow_visualization m rx tx x y)"
  unfolding render_flow_visualization_def Let_def by (intro draw_intros)

lemma never_block_tail [draw_intros]: "never_raises (block_tail m e y)"
  unfolding never_raises_def
proof
  fix scr
  obtain s1 wy where w: "draw_entity_whispers (last_n 2 (whispers e)) (y + 6) scr = (s1, wy)"
    by (cases "draw_entity_whispers (last_n 2 (whispers e)) (y + 6) scr")
  have "never_raises (then_draw
            (try_pass (addstr wy 2 ([0x2570] @ replicate (nat (COLS s1 - 4)) 0x2500) A_NORMAL))
            (draw_each (\<lambda>glyph. render_glyph m glyph 25 (y - 4)) (glyphs e)))"
    by (intro draw_intros)
  then show "snd (block_tail m e y scr) = None"
    by (simp add: block_tail_def w never_raises_def)
qed

lemma with_attr_ready: "map_of (colors m) c = Some a \<Longrightarrow> with_attr (color_of m c) f = f a"
  by (simp add: with_attr_def color_of_def)

lemma never_draw_spirit_info: "colors_ready m \<Longrightarrow> never_raises (draw_spirit_info h m e y)"
proof -
  assume "colors_ready m"
  then obtain a2 a3 a4 where c: "map_of (colors m) 2 = Some a2" "map_of (colors m) 3 = Some a3"
    "map_of (colors m) 4 = Some a4"
    by (auto simp: colors_ready_def)
  show ?thesis
    unfolding draw_spirit_info_def Let_def with_attr_ready [OF c(1)] with_attr_ready [OF c(2)]
      with_attr_ready [OF c(3)]
    by (intro never_try_curses only_curses_then only_curses_addstr only_curses_never draw_intros)
qed

lemma never_draw_spirit_info_guarded [draw_intros]:
  "never_raises (draw_spirit_info_guarded h m e y)"
  unfolding draw_spirit_info_guarded_def Let_def by (intro draw_intros)

lemma never_draw_spirits: "colors_ready m \<Longrightarrow> never_raises (draw_spirits h m hgt y sps)"
proof (induction sps arbitrary: y)
  case Nil
  then show ?case by (simp add: never_skip)
next
  case (Cons sp sps)
  show ?case
    unfolding draw_spirits.simps
    by (intro never_if never_then never_draw_spirit_info Cons.IH Cons.prems)
qed

lemma never_draw_status_bar [draw_intros]: "never_raises (draw_status_bar h m d hgt wid)"
  unfolding draw_status_bar_def Let_def
  by (intro never_try_curses only_curses_never draw_intros)

lemma never_panel_line [draw_intros]: "never_raises (panel_line hgt px pw iw)"
  unfolding panel_line_def case_prod_beta by (intro draw_intros)

lemma never_draw_whispers_panel [draw_intros]: "never_raises (draw_whispers_panel m hgt wid)"
  unfolding draw_whispers_panel_def Let_def
  by (intro never_if never_try_curses only_curses_never draw_intros)

lemma never_frame:
  "colors_ready m \<Longrightarrow>
   never_raises
     (then_draw (draw_veil_border hgt wid)
       (then_draw (draw_title m wid)
       (then_draw (draw_time d wid)
       (then_draw (draw_spirits h m hgt 2 sps)
       (then_draw (draw_status_bar h m d hgt wid)
                  (draw_whispers_panel m hgt wid))))))"
  unfolding draw_veil_border_def
  by (intro never_then never_draw_spirits draw_intros)

lemma draw_veil_no_raise: "colors_ready m \<Longrightarrow> snd (draw_veil h m d scr) = None"
  using never_raisesD [OF never_try_curses [OF only_curses_never [OF never_frame]]]
  by (simp add: draw_veil_def)

subsection \<open>Writes that fit, writes that do not\<close>

lemma accepts_all_cells [simp]: "accepts_all (scr\<lparr>cells := cs\<rparr>) = accepts_all scr"
  by (simp add: accepts_all_def)

lemma in_grid_cells [simp]: "in_grid (scr\<lparr>cells := cs\<rparr>) y x = in_grid scr y x"
  by (simp add: in_grid_def)

lemma accepts_all_same_grid: "same_grid a b \<Longrightarrow> accepts_all a \<Longrightarrow> accepts_all b"
  by (simp add: same_grid_def accepts_all_def)










subsection \<open>The border\<close>



subsection \<open>An entity block\<close>








subsection \<open>The frame\<close>



subsection \<open>Glyphs stay in their local canvas\<close>

lemma randint_range:
  "a \<le> b \<Longrightarrow> a \<le> fst (random_randint a b g) \<and> fst (random_randint a b g) \<le> b"
proof -
  assume ab: "a \<le> b"
  define n where "n = nat (b - a + 1)"
  define i where "i = fst (randbelow n g)"
  have "0 < n" using ab by (simp add: n_def)
  then have "i < n" by (simp add: i_def randbelow_def)
  then have "int i < b - a + 1" using ab by (simp add: n_def)
  moreover have "fst (random_randint a b g) = a + int i"
    by (simp add: random_randint_def i_def n_def case_prod_beta)
  ultimately show ?thesis by simp
qed

lemma spawn_glyph_local: "glyph_local (fst (spawn_glyph k i g))"
  using randint_range [of 0 20 g] randint_range [of 0 5 "snd (random_randint 0 20 g)"]
  by (simp add: spawn_glyph_def glyph_local_def case_prod_beta)

lemma decay_glyphs_local:
  "\<forall>gl \<in> set gs. glyph_local gl \<Longrightarrow> \<forall>gl \<in> set (fst (decay_glyphs gs g)). glyph_local gl"
proof (induction gs arbitrary: g)
  case Nil
  then show ?case by simp
next
  case (Cons gl gs)
  have "\<forall>x \<in> set (fst (decay_glyphs gs (snd (random_choice (glyph_chars (type gl)) g)))).
      glyph_local x"
    using Cons.prems by (intro Cons.IH) simp
  moreover have "glyph_local (gl\<lparr>age := age gl + 1, intensity := intensity gl * (95 / 100),
      char := fst (random_choice (glyph_chars (type gl)) g)\<rparr>)"
    using Cons.prems by (simp add: glyph_local_def)
  ultimately show ?case
    by (simp add: Let_def case_prod_beta)
qed

lemma spawn_flow_local: "gl \<in> set (fst (spawn_flow fi g)) \<Longrightarrow> glyph_local gl"
  using spawn_glyph_local [of FLOW fi "snd (random_random g)"]
  by (simp add: spawn_flow_def case_prod_beta split: if_splits)

lemma spawn_whisper_local: "gl \<in> set (fst (spawn_whisper ess g)) \<Longrightarrow> glyph_local gl"
  using spawn_glyph_local [of WHISPER ess "snd (random_random g)"]
  by (simp add: spawn_whisper_def case_prod_beta split: if_splits)

lemma update_glyphs_local:
  "\<forall>gl \<in> set (glyphs e). glyph_local gl \<Longrightarrow>
   \<forall>gl \<in> set (glyphs (fst (update_glyphs e g))). glyph_local gl"
proof
  fix gl
  assume a: "\<forall>gl \<in> set (glyphs e). glyph_local gl"
    and b: "gl \<in> set (glyphs (fst (update_glyphs e g)))"
  from b consider "gl \<in> set (fst (decay_glyphs (glyphs e) g))"
    | "gl \<in> set (fst (spawn_flow (flow_intensity (rx_rate e) (tx_rate e))
          (snd (decay_glyphs (glyphs e) g))))"
    | "gl \<in> set (fst (spawn_whisper (essence e)
         (snd (spawn_flow (flow_intensity (rx_rate e) (tx_rate e))
                (snd (decay_glyphs (glyphs e) g))))))"
    unfolding glyphs_update_glyphs by auto
  then show "glyph_local gl"
  proof cases
    case 1
    then show ?thesis using decay_glyphs_local [OF a, of g] by simp
  next
    case 2
    then show ?thesis by (rule spawn_flow_local)
  next
    case 3
    then show ?thesis by (rule spawn_whisper_local)
  qed
qed

lemma glyphs_sample_entity [simp]: "glyphs (sample_entity ct lu d rx tx e) = glyphs e"
  by (simp add: sample_entity_def status_whisper_def add_whisper_def Let_def)

lemma glyphs_new_entity [simp]: "glyphs (fst (new_entity n i t g)) = []"
  by (simp add: new_entity_def case_prod_beta)

lemma glyphs_local_update:
  "glyphs_local m \<Longrightarrow> \<forall>gl \<in> set (glyphs e). glyph_local gl \<Longrightarrow>
   glyphs_local (m\<lparr>entities := AList.update i e (entities m)\<rparr>)"
proof -
  assume a: "glyphs_local m" and b: "\<forall>gl \<in> set (glyphs e). glyph_local gl"
  have "set (AList.update i e al) \<subseteq> insert (i, e) (set al)" for al
    by (induction al) auto
  then have "\<And>ke. ke \<in> set (AList.update i e (entities m)) \<Longrightarrow>
      ke = (i, e) \<or> ke \<in> set (entities m)"
    by blast
  then show ?thesis using a b unfolding glyphs_local_def by fastforce
qed

lemma observe_glyphs_local:
  "glyphs_local m \<Longrightarrow> glyphs_local (fst (observe ct d i rx tx m g))"
proof (cases "map_of (entities m) i")
  case None
  assume a: "glyphs_local m"
  have "\<forall>gl \<in> set (glyphs (fst (update_glyphs
      (sample_entity ct (last_update m) d rx tx (fst (new_entity i i ct g)))
      (snd (new_entity i i ct g))))). glyph_local gl"
    by (rule update_glyphs_local) simp
  then show ?thesis
    using a by (simp add: observe_new [OF None] glyphs_local_def)
next
  case (Some e)
  assume a: "glyphs_local m"
  have "(i, e) \<in> set (entities m)" using Some by (rule map_of_SomeD)
  then have "\<forall>gl \<in> set (glyphs e). glyph_local gl"
    using a by (force simp: glyphs_local_def)
  then have "\<forall>gl \<in> set (glyphs (fst (update_glyphs
      (sample_entity ct (last_update m) d rx tx e) g))). glyph_local gl"
    by (intro update_glyphs_local) simp
  then show ?thesis
    using glyphs_local_update [OF a] by (simp add: observe_tracked [OF Some])
qed

lemma glyphs_local_entities:
  "entities m' = entities m \<Longrightarrow> glyphs_local m' = glyphs_local m"
  by (simp add: glyphs_local_def)

lemma scan_rows_glyphs_local:
  "glyphs_local m \<Longrightarrow> glyphs_local (fst (fst (scan_rows ct d ls (m, found, g))))"
proof (induction ls arbitrary: m found g)
  case Nil
  then show ?case by simp
next
  case (Cons l ls)
  show ?case
  proof (cases "classify_row (show_loopback (config m)) l")
    case (Sample i rx tx)
    then show ?thesis
      using Cons.IH [OF observe_glyphs_local [OF Cons.prems], of ct d i rx tx g "insert i found"
          "snd (observe ct d i rx tx m g)"]
      by (simp add: scan_row_classify case_prod_beta)
  qed (simp_all add: scan_row_classify Cons.IH Cons.prems)
qed

lemma fade_glyphs_local: "glyphs_local m \<Longrightarrow> glyphs_local (fade d ids m)"
proof (induction ids arbitrary: m)
  case Nil
  then show ?case by simp
next
  case (Cons i ids)
  show ?case
  proof (cases "map_of (entities m) i")
    case None
    then show ?thesis using Cons by simp
  next
    case (Some sp)
    have "glyphs_local (m\<lparr>entities := AList.delete i (entities m),
        collector := collector_add_whisper d ''Veil'' (spirit_message (name sp) ''faded'')
          ''SPIRIT'' (collector m)\<rparr>)"
      using Cons.prems by (auto simp: glyphs_local_def AList.delete_eq)
    then show ?thesis
      using Some by (simp add: Cons.IH)
  qed
qed

lemma scan_spirits_glyphs_local:
  "glyphs_local m \<Longrightarrow> glyphs_local (fst (scan_spirits src ct d m g))"
proof (cases src)
  case (Inl e)
  assume "glyphs_local m"
  then show ?thesis by (simp add: Inl scan_spirits_def scan_failed_def glyphs_local_def)
next
  case (Inr ls)
  assume a: "glyphs_local m"
  have b: "glyphs_local (fst (fst (scan_rows ct d (drop 2 ls) (m, {}, g))))"
    using a by (rule scan_rows_glyphs_local)
  show ?thesis
    using b fade_glyphs_local [OF b]
    by (cases "snd (scan_rows ct d (drop 2 ls) (m, {}, g))")
      (simp_all add: Inr scan_spirits_rows Let_def scan_failed_def glyphs_local_def)
qed

subsection \<open>The visible entities\<close>








subsection \<open>The states of a run\<close>

text \<open>
  The colour pairs are set by the first line of \<^verbatim>\<open>run_ritual\<close> and nothing changes them;
  the glyphs of a monitor that starts without entities stay in their local canvas.  So
  both hold of every state for which the loop draws a frame.
\<close>

lemma colors_ready_init: "colors_ready (init_colors m)"
  by (simp add: colors_ready_def init_colors_def color_pair_attr_def)

lemma colors_ready_colors: "colors m' = colors m \<Longrightarrow> colors_ready m' = colors_ready m"
  by (simp add: colors_ready_def)

lemma handle_key_static [simp]:
  "entities (fst (handle_key h t m g)) = entities m"
  "colors (fst (handle_key h t m g)) = colors m"
  by (simp_all add: handle_key_def info_whisper_def Let_def)

lemma start_ritual_ready:
  "colors_ready (start_ritual d m)"
  "glyphs_local (start_ritual d (new_mystic c t))"
proof -
  have "colors (start_ritual d m) = colors (init_colors m)"
    by (simp add: start_ritual_def Let_def)
  then show "colors_ready (start_ritual d m)"
    using colors_ready_init colors_ready_colors by blast
  show "glyphs_local (start_ritual d (new_mystic c t))"
    by (simp add: glyphs_local_def start_ritual_def init_colors_def new_mystic_def Let_def)
qed

text \<open>The state that a pass of the loop hands to \<^verbatim>\<open>draw_veil\<close>.\<close>

lemma frame_ready:
  assumes "colors_ready m" "glyphs_local m"
  shows "colors_ready (fst (perform_rituals h ct d
            (fst (scan_spirits src ct d (fst (handle_key h t m g)) g1)) g2))"
    and "glyphs_local (fst (perform_rituals h ct d
            (fst (scan_spirits src ct d (fst (handle_key h t m g)) g1)) g2))"
proof -
  have "colors_ready (fst (handle_key h t m g))"
    using assms(1) colors_ready_colors [of "fst (handle_key h t m g)" m] by simp
  then have "colors_ready (fst (scan_spirits src ct d (fst (handle_key h t m g)) g1))"
    using colors_ready_colors [of "fst (scan_spirits src ct d (fst (handle_key h t m g)) g1)"
        "fst (handle_key h t m g)"] by simp
  then show "colors_ready (fst (perform_rituals h ct d
            (fst (scan_spirits src ct d (fst (handle_key h t m g)) g1)) g2))"
    using colors_ready_colors [of "fst (perform_rituals h ct d
            (fst (scan_spirits src ct d (fst (handle_key h t m g)) g1)) g2)"
        "fst (scan_spirits src ct d (fst (handle_key h t m g)) g1)"] by simp
  have "glyphs_local (fst (handle_key h t m g))"
    using assms(2) glyphs_local_entities [of "fst (handle_key h t m g)" m] by simp
  then have "glyphs_local (fst (scan_spirits src ct d (fst (handle_key h t m g)) g1))"
    by (rule scan_spirits_glyphs_local)
  then show "glyphs_local (fst (perform_rituals h ct d
            (fst (scan_spirits src ct d (fst (handle_key h t m g)) g1)) g2))"
    using glyphs_local_entities [of "fst (perform_rituals h ct d
            (fst (scan_spirits src ct d (fst (handle_key h t m g)) g1)) g2)"
        "fst (scan_spirits src ct d (fst (handle_key h t m g)) g1)"] by simp
qed

lemma ritual_iteration_ready:
  assumes "colors_ready (fst w)" "glyphs_local (fst w)"
  shows "colors_ready (fst (ritual_iteration h t w)) \<and> glyphs_local (fst (ritual_iteration h t w))"
proof -
  obtain m scr g where w: "w = (m, scr, g)" by (cases w)
  define m1 where "m1 = fst (handle_key h t m g)"
  define g1 where "g1 = snd (handle_key h t m g)"
  define m2 where "m2 = fst (perform_rituals h (scan_time t) (wall t)
      (fst (scan_spirits (source t) (scan_time t) (wall t) m1 g1))
      (snd (scan_spirits (source t) (scan_time t) (wall t) m1 g1)))"
  have r1: "colors_ready m1" "glyphs_local m1"
    using assms colors_ready_colors [of m1 m] glyphs_local_entities [of m1 m]
    by (simp_all add: w m1_def)
  have r2: "colors_ready m2" "glyphs_local m2"
    using frame_ready [OF assms [unfolded w fst_conv], of h "scan_time t" "wall t" "source t" t g g1]
    by (simp_all add: m2_def m1_def)
  have none: "snd (draw_veil h m2 (wall t) scr) = None"
    using r2(1) by (rule draw_veil_no_raise)
  have "fst (ritual_iteration h t w) = m1
      \<or> fst (ritual_iteration h t w) = m2\<lparr>last_update := now t\<rparr>"
    using none
    by (simp add: ritual_iteration_def sample_cycle_def w case_prod_beta m1_def [symmetric]
        g1_def [symmetric] m2_def [symmetric])
  moreover have "colors_ready (m2\<lparr>last_update := now t\<rparr>)"
    "glyphs_local (m2\<lparr>last_update := now t\<rparr>)"
    using r2 by (simp_all add: colors_ready_def glyphs_local_def)
  ultimately show ?thesis using r1 by auto
qed

lemma run_ritual_ready:
  "colors_ready (fst w) \<Longrightarrow> glyphs_local (fst w) \<Longrightarrow>
   colors_ready (fst (run_ritual h ts w)) \<and> glyphs_local (fst (run_ritual h ts w))"
proof (induction ts arbitrary: w)
  case Nil
  then show ?case by simp
next
  case (Cons t ts)
  show ?case
    using Cons.prems Cons.IH [of "ritual_iteration h t w"] ritual_iteration_ready [of w h t]
    by simp
qed

text \<open>
  So the state that any pass hands to \<^verbatim>\<open>draw_veil\<close>, after any number of passes from the
  start of \<^verbatim>\<open>run_ritual\<close>, has its colour pairs set and its glyphs in their canvas.
\<close>

lemma run_frame_ready:
  "colors_ready (fst (perform_rituals h ct d
      (fst (scan_spirits src ct d
         (fst (handle_key h t
            (fst (run_ritual h ts (start_ritual d0 (new_mystic c t0), scr0, g0))) g)) g1)) g2))
   \<and> glyphs_local (fst (perform_rituals h ct d
      (fst (scan_spirits src ct d
         (fst (handle_key h t
            (fst (run_ritual h ts (start_ritual d0 (new_mystic c t0), scr0, g0))) g)) g1)) g2))"
proof -
  define m where "m = fst (run_ritual h ts (start_ritual d0 (new_mystic c t0), scr0, g0))"
  have "colors_ready m \<and> glyphs_local m"
    unfolding m_def by (rule run_ritual_ready) (simp_all add: start_ritual_ready)
  then show ?thesis
    unfolding m_def [symmetric] using frame_ready [of m] by blast
qed

subsection \<open>The frame on any grid\<close>


lemma example_monitor_ready: "colors_ready example_monitor" "glyphs_local example_monitor"
  unfolding example_monitor_def by (rule start_ritual_ready)+



subsection \<open>The entities of a frame\<close>












section \<open>Properties of the loop\<close>

subsection \<open>Passes of the loop\<close>

lemma handle_key_none: "key t = - 1 \<Longrightarrow> handle_key h t m g = (m, g)"
  by (simp add: handle_key_def)

lemma sample_cycle_due:
  assumes due: "update_interval (config m) \<le> now t - last_update m" and col: "colors_ready m"
  shows "fst (sample_cycle h t (m, scr, g)) =
    (fst (perform_rituals h (scan_time t) (wall t)
       (fst (scan_spirits (source t) (scan_time t) (wall t) m g))
       (snd (scan_spirits (source t) (scan_time t) (wall t) m g))))\<lparr>last_update := now t\<rparr>"
proof -
  define m2 where "m2 = fst (perform_rituals h (scan_time t) (wall t)
       (fst (scan_spirits (source t) (scan_time t) (wall t) m g))
       (snd (scan_spirits (source t) (scan_time t) (wall t) m g)))"
  have "colors m2 = colors m" by (simp add: m2_def)
  then have "colors_ready m2" using col colors_ready_colors by blast
  then have "snd (draw_veil h m2 (wall t) scr) = None" by (rule draw_veil_no_raise)
  then show ?thesis
    using due by (simp add: sample_cycle_def case_prod_beta m2_def [symmetric])
qed

lemma iteration_fields:
  assumes k: "key t = - 1"
    and due: "update_interval (config m) \<le> now t - last_update m" and col: "colors_ready m"
  shows "entities (fst (ritual_iteration h t (m, scr, g))) =
      entities (fst (scan_spirits (source t) (scan_time t) (wall t) m g))"
    and "last_update (fst (ritual_iteration h t (m, scr, g))) = now t"
    and "config (fst (ritual_iteration h t (m, scr, g))) = config m"
    and "colors (fst (ritual_iteration h t (m, scr, g))) = colors m"
    and "running (fst (ritual_iteration h t (m, scr, g))) = running m"
  by (simp_all add: ritual_iteration_def handle_key_none [OF k] sample_cycle_due [OF due col])

lemma run_ritual_snoc:
  "run_ritual h (ts @ [t]) w =
     (if running (fst (run_ritual h ts w)) then ritual_iteration h t (run_ritual h ts w)
      else run_ritual h ts w)"
  by (induction ts arbitrary: w) simp_all

text \<open>
  The example run: a first sample at time 10, a failed read at time 11, a second sample
  at time 12.
\<close>

lemma example_world_first:
  "entities (fst (example_world [example_tick 10 (Inr rows_eth0)])) = entities example_tracked"
  "last_update (fst (example_world [example_tick 10 (Inr rows_eth0)])) = 10"
  "config (fst (example_world [example_tick 10 (Inr rows_eth0)])) = default_config"
  "colors_ready (fst (example_world [example_tick 10 (Inr rows_eth0)]))"
  "running (fst (example_world [example_tick 10 (Inr rows_eth0)]))"
proof -
  have k: "key (example_tick 10 (Inr rows_eth0)) = - 1" by (simp add: example_tick_def)
  have due: "update_interval (config example_monitor)
      \<le> now (example_tick 10 (Inr rows_eth0)) - last_update example_monitor"
    by (simp add: example_tick_def example_monitor_fields default_config_def)
  note f = iteration_fields [OF k due example_monitor_ready(1), where h = example_host
      and scr = "example_screen 5 10" and g = example_tape]
  have w: "example_world [example_tick 10 (Inr rows_eth0)] =
      ritual_iteration example_host (example_tick 10 (Inr rows_eth0))
        (example_monitor, example_screen 5 10, example_tape)"
    by (simp add: example_world_def example_monitor_fields)
  show "entities (fst (example_world [example_tick 10 (Inr rows_eth0)])) = entities example_tracked"
    unfolding w f(1) by (simp add: example_tick_def example_tracked_def)
  show "last_update (fst (example_world [example_tick 10 (Inr rows_eth0)])) = 10"
    unfolding w f(2) by (simp add: example_tick_def)
  show "config (fst (example_world [example_tick 10 (Inr rows_eth0)])) = default_config"
    unfolding w f(3) by (simp add: example_monitor_fields)
  show "colors_ready (fst (example_world [example_tick 10 (Inr rows_eth0)]))"
    unfolding w using f(4) example_monitor_ready(1) colors_ready_colors by blast
  show "running (fst (example_world [example_tick 10 (Inr rows_eth0)]))"
    unfolding w f(5) by (simp add: example_monitor_fields)
qed

lemma example_world_snoc:
  "running (fst (example_world ts)) \<Longrightarrow>
   example_world (ts @ [t]) = ritual_iteration example_host t (example_world ts)"
  by (simp add: example_world_def run_ritual_snoc)

lemma example_world_second:
  "entities (fst (example_world [example_tick 10 (Inr rows_eth0),
      example_tick 11 (Inl (OSError ''gone''))])) = entities example_tracked"
  "last_update (fst (example_world [example_tick 10 (Inr rows_eth0),
      example_tick 11 (Inl (OSError ''gone''))])) = 11"
  "config (fst (example_world [example_tick 10 (Inr rows_eth0),
      example_tick 11 (Inl (OSError ''gone''))])) = default_config"
  "colors_ready (fst (example_world [example_tick 10 (Inr rows_eth0),
      example_tick 11 (Inl (OSError ''gone''))]))"
  "running (fst (example_world [example_tick 10 (Inr rows_eth0),
      example_tick 11 (Inl (OSError ''gone''))]))"
proof -
  define w1 where "w1 = example_world [example_tick 10 (Inr rows_eth0)]"
  define t2 where "t2 = example_tick 11 (Inl (OSError ''gone''))"
  obtain m1 s1 g1 where w1: "w1 = (m1, s1, g1)" by (cases w1)
  have m1: "entities m1 = entities example_tracked" "last_update m1 = 10"
    "config m1 = default_config" "colors_ready m1" "running m1"
    using example_world_first by (simp_all add: w1_def [symmetric] w1)
  have k: "key t2 = - 1" by (simp add: t2_def example_tick_def)
  have due: "update_interval (config m1) \<le> now t2 - last_update m1"
    by (simp add: t2_def example_tick_def m1 default_config_def)
  note f = iteration_fields [OF k due m1(4), where h = example_host and scr = s1 and g = g1]
  have w: "example_world [example_tick 10 (Inr rows_eth0), t2] =
      ritual_iteration example_host t2 (m1, s1, g1)"
    using example_world_snoc [of "[example_tick 10 (Inr rows_eth0)]" t2] m1(5)
    by (simp add: w1_def [symmetric] w1)
  show "entities (fst (example_world [example_tick 10 (Inr rows_eth0),
      example_tick 11 (Inl (OSError ''gone''))])) = entities example_tracked"
    unfolding t2_def [symmetric] w f(1) by (simp add: t2_def example_tick_def m1)
  show "last_update (fst (example_world [example_tick 10 (Inr rows_eth0),
      example_tick 11 (Inl (OSError ''gone''))])) = 11"
    unfolding t2_def [symmetric] w f(2) by (simp add: t2_def example_tick_def)
  show "config (fst (example_world [example_tick 10 (Inr rows_eth0),
      example_tick 11 (Inl (OSError ''gone''))])) = default_config"
    unfolding t2_def [symmetric] w f(3) by (simp add: m1)
  show "colors_ready (fst (example_world [example_tick 10 (Inr rows_eth0),
      example_tick 11 (Inl (OSError ''gone''))]))"
    unfolding t2_def [symmetric] w using f(4) m1(4) colors_ready_colors by blast
  show "running (fst (example_world [example_tick 10 (Inr rows_eth0),
      example_tick 11 (Inl (OSError ''gone''))]))"
    unfolding t2_def [symmetric] w f(5) by (simp add: m1)
qed

lemma example_world_third:
  "\<exists>e. map_of (entities (fst (example_world [example_tick 10 (Inr rows_eth0),
      example_tick 11 (Inl (OSError ''gone'')), example_tick 12 (Inr rows_eth0_later)])))
      ''eth0'' = Some e
    \<and> rx_rate e = 2000 \<and> tx_rate e = 2000 \<and> rx_bytes e = 3000 \<and> tx_bytes e = 2500
    \<and> last_seen e = 12"
proof -
  define w2 where "w2 = example_world [example_tick 10 (Inr rows_eth0),
      example_tick 11 (Inl (OSError ''gone''))]"
  define t3 where "t3 = example_tick 12 (Inr rows_eth0_later)"
  obtain m2 s2 g2 where w2: "w2 = (m2, s2, g2)" by (cases w2)
  have m2: "entities m2 = entities example_tracked" "last_update m2 = 11"
    "config m2 = default_config" "colors_ready m2" "running m2"
    using example_world_second by (simp_all add: w2_def [symmetric] w2)
  have k: "key t3 = - 1" by (simp add: t3_def example_tick_def)
  have due: "update_interval (config m2) \<le> now t3 - last_update m2"
    by (simp add: t3_def example_tick_def m2 default_config_def)
  note f = iteration_fields [OF k due m2(4), where h = example_host and scr = s2 and g = g2]
  have w: "example_world [example_tick 10 (Inr rows_eth0),
      example_tick 11 (Inl (OSError ''gone'')), t3] = ritual_iteration example_host t3 (m2, s2, g2)"
    using example_world_snoc [of "[example_tick 10 (Inr rows_eth0),
      example_tick 11 (Inl (OSError ''gone''))]" t3] m2(5)
    by (simp add: w2_def [symmetric] w2)
  obtain e where e: "map_of (entities m2) ''eth0'' = Some e" "rx_bytes e = 1000"
    "tx_bytes e = 500"
    using example_tracked_eth0 by (auto simp: m2(1))
  have r: "scan_rows_of m2 rows_eth0_later = [] @ Sample ''eth0'' 3000 2500 # []"
    using scan_rows_of_config [of m2 example_monitor rows_eth0_later]
    by (simp add: m2 example_monitor_fields example_rows)
  obtain gx where "map_of (entities (fst (scan_spirits (Inr rows_eth0_later) 12 example_clock
      m2 g2))) ''eth0'' =
      Some (fst (update_glyphs (sample_entity 12 (last_update m2) example_clock 3000 2500 e) gx))"
    using scan_spirits_single_sample [OF r, where ct = 12 and d = example_clock and g = g2] e(1)
    by auto
  then show ?thesis
    unfolding t3_def [symmetric] w f(1)
    by (simp add: t3_def example_tick_def sample_entity_fields m2 e)
qed


text \<open>
  Before the third pass \<^verbatim>\<open>eth0\<close> has \<^verbatim>\<open>rx_bytes = 1000\<close> and \<^verbatim>\<open>last_seen = 10\<close>; the failed
  pass at time 11 moved \<^verbatim>\<open>last_update\<close> only.  The third pass samples 3000 bytes at time
  12 and sets the rate to \<open>(3000 - 1000) / (12 - 11)\<close>, which is not the quotient by the
  time since the entity's previous sample.
\<close>

theorem scan_rates_counterexample:
  "rx_bytes example_eth0_before = 1000 \<and> last_seen example_eth0_before = 10
   \<and> rx_bytes example_eth0_after = 3000 \<and> last_seen example_eth0_after = 12
   \<and> rx_rate example_eth0_after = 2000
   \<and> rx_rate example_eth0_after \<noteq>
       real_of_int (rx_bytes example_eth0_after - rx_bytes example_eth0_before)
         / (last_seen example_eth0_after - last_seen example_eth0_before)"
  using example_world_third example_tracked_eth0
  by (auto simp: example_world_second(1) example_eth0_before_def example_eth0_after_def
      example_passes_def)

section \<open>Properties of the persistence step\<close>

lemma zero_pad_numeral:
  "zero_pad (numeral k) n = zero_pad (pred_numeral k) (n div 10) @ [digit_char n]"
  by (metis numeral_eq_Suc zero_pad.simps(2))

lemma count_newline_indent [simp]: "count_list (newline_indent l) 10 = 1"
  by (simp add: newline_indent_def)

lemma hd_newline_indent: "take 1 (newline_indent l) = [10]"
  by (simp add: newline_indent_def)

text \<open>
  Claim C8, as the code has it.  With no log file configured (\<^verbatim>\<open>None\<close> or the empty
  string) \<^verbatim>\<open>save_mysteries\<close> writes nothing and leaves the monitor as it is.  With a path
  that can be opened, it appends to the text of that file one JSON document and a line
  feed.  The document is written with \<^verbatim>\<open>indent=2\<close>, so it is not one line: it begins with
  a brace and a line feed, and it holds at least six line feeds (one before each of its
  five members and one before the closing brace).
\<close>

theorem save_mysteries_appends:
  "(log_file (config m) = None \<or> log_file (config m) = Some [] \<longrightarrow>
      save_mysteries h d m fs = (m, fs))
   \<and> (log_file (config m) = Some path \<and> path \<noteq> [] \<and> fs path = Inr old \<longrightarrow>
        save_mysteries h d m fs =
          (m, fs(path := Inr (old @ json_dump h 0 (log_entry d m) @ [0x0A])))
        \<and> take 2 (json_dump h 0 (log_entry d m)) = [0x7B, 0x0A]
        \<and> 6 \<le> count_list (json_dump h 0 (log_entry d m)) 0x0A)"
proof -
  have a: "take 2 (json_dump h 0 (log_entry d m)) = [0x7B, 0x0A]"
    unfolding log_entry_def json_dump.simps by (simp add: newline_indent_def)
  have b: "6 \<le> count_list (json_dump h 0 (log_entry d m)) 0x0A"
    unfolding log_entry_def json_dump.simps by simp
  show ?thesis
    using a b by (auto simp: save_mysteries_def)
qed

text \<open>
  The monitor at its start with no log file, and with the default one in files where
  every path is still empty.
\<close>

theorem save_mysteries_appends_witness:
  "save_mysteries example_host example_clock
      (example_monitor\<lparr>config := default_config\<lparr>log_file := None\<rparr>\<rparr>) example_files =
     (example_monitor\<lparr>config := default_config\<lparr>log_file := None\<rparr>\<rparr>, example_files)
   \<and> snd (save_mysteries example_host example_clock example_monitor example_files)
        ''network_mysteries.log'' =
       Inr (json_dump example_host 0 (log_entry example_clock example_monitor) @ [0x0A])
   \<and> take 2 (json_dump example_host 0 (log_entry example_clock example_monitor)) = [0x7B, 0x0A]
   \<and> 6 \<le> count_list (json_dump example_host 0 (log_entry example_clock example_monitor)) 0x0A"
  using save_mysteries_appends [where h = example_host and d = example_clock
      and m = "example_monitor\<lparr>config := default_config\<lparr>log_file := None\<rparr>\<rparr>"
      and fs = example_files]
    save_mysteries_appends [where m = example_monitor and path = "''network_mysteries.log''"
      and old = "[]" and h = example_host and d = example_clock and fs = example_files]
  by (simp add: example_files_def default_config_def example_monitor_def start_ritual_def
      init_colors_def new_mystic_def Let_def)

lemma str_nat_digit: "n < 10 \<Longrightarrow> str_nat n = [digit_char n]"
  by (simp add: str_nat.simps)

lemmas json_eval = json_dump.simps str_nat_digit log_entry_def isoformat_def
  strftime_HMS_def strftime_Ymd_HMS_def zero_pad_numeral digit_char_def get_mystic_time_def
  hour_symbols_def minute_symbols_def get_recent_whispers_def json_string_def
  json_escape_def newline_indent_def ustr_def str_int_def collector_add_whisper_def

text \<open>
  The text that the monitor at its start appends to its log file is one record of nine
  lines: it begins with a brace and a line feed and holds nine line feeds, the last one
  written after the document.
\<close>

theorem save_mysteries_counterexample:
  "take 2 example_saved = [0x7B, 0x0A] \<and> count_list example_saved 0x0A = 9"
  by (simp add: example_saved_def save_mysteries_def example_files_def example_monitor_def
      start_ritual_def init_colors_def new_mystic_def default_config_def Let_def
      example_clock_def example_host_def json_eval)

end
